theory Spec2Isabelle
  imports Main "HOL-Library.Char_ord" "HOL-Library.List_Lexorder" "HOL-Library.Multiset"
begin

section \<open>JavaScript values\<close>

text \<open>
  The values that travel through \<^verbatim>\<open>src/js/dbhelper.js\<close> as ids, field values and keys.
  The numbers that occur there (record ids, timestamps, array indices) are integers; strings are
  sequences of characters, compared as such. \<open>JUndefined\<close> is also the value of a property
  that an object does not have.
\<close>

datatype jsval = JUndefined | JNull | JNum int | JStr string

text \<open>
  \<^verbatim>\<open>==\<close> between a number and a string converts the string with the language's
  \<open>StringToNumber\<close> and compares numbers. Against an integer, all that matters of the
  conversion is the integer that the string converts to, if any: \<open>None\<close> stands for
  \<^verbatim>\<open>NaN\<close>, an infinity or a number that is not an integer. The conversion belongs to the
  engine and not to this module, so it is a parameter \<open>tn\<close> of the model, passed to every
  function that compares with \<^verbatim>\<open>==\<close>, and every statement holds for every engine, however
  it reads white space, fractions, exponents, radix prefixes or long digit strings. Two cases
  that the language fixes are read here, because the module's own comparisons meet them:
  \<^item> a string with an ASCII character that occurs in no numeric literal and is no white space
    (as the \<^verbatim>\<open>l\<close> of \<^verbatim>\<open>"all"\<close>) converts to \<^verbatim>\<open>NaN\<close>; a character beyond ASCII may
    be white space or part of it, and decides nothing;
  \<^item> a non-empty string of decimal digits whose value is at most \<open>2^53\<close> converts to that
    value, exactly.
\<close>

definition numeric_char :: "char \<Rightarrow> bool" where
  "numeric_char c =
     (c \<in> set ''0123456789+-.eExXoObBabcdefABCDEFInfity''
      \<or> c \<in> set [CHR 0x09, CHR 0x0A, CHR 0x0B, CHR 0x0C, CHR 0x0D, CHR 0x20]
      \<or> (128 :: nat) \<le> of_char c)"

definition digitValue :: "char \<Rightarrow> nat option" where
  "digitValue c =
     map_of [(CHR ''0'', 0), (CHR ''1'', 1), (CHR ''2'', 2), (CHR ''3'', 3), (CHR ''4'', 4),
             (CHR ''5'', 5), (CHR ''6'', 6), (CHR ''7'', 7), (CHR ''8'', 8), (CHR ''9'', 9)] c"

fun decimalDigits :: "nat \<Rightarrow> string \<Rightarrow> nat option" where
  "decimalDigits acc [] = Some acc"
| "decimalDigits acc (c # cs) =
     (case digitValue c of
        None \<Rightarrow> None
      | Some d \<Rightarrow> decimalDigits (10 * acc + d) cs)"

text \<open>The value of a non-empty string of decimal digits.\<close>

definition digits_value :: "string \<Rightarrow> nat option" where
  "digits_value s = (if s = [] then None else decimalDigits 0 s)"

definition StringToNumber :: "(string \<Rightarrow> int option) \<Rightarrow> string \<Rightarrow> int option" where
  "StringToNumber tn s =
     (if \<not> list_all numeric_char s then None
      else (case digits_value s of
              Some v \<Rightarrow> if v \<le> 2 ^ 53 then Some (int v) else tn s
            | None \<Rightarrow> tn s))"

text \<open>\<^verbatim>\<open>x === y\<close>: on these values, the same type and the same value.\<close>

definition strict_eq :: "jsval \<Rightarrow> jsval \<Rightarrow> bool" where
  "strict_eq x y = (x = y)"

text \<open>
  \<^verbatim>\<open>x == y\<close>: a number and a string are compared as numbers, \<^verbatim>\<open>null\<close> and
  \<^verbatim>\<open>undefined\<close> equal each other and nothing else, and two values of one type are compared
  strictly.
\<close>

fun loose_eq :: "(string \<Rightarrow> int option) \<Rightarrow> jsval \<Rightarrow> jsval \<Rightarrow> bool" where
  "loose_eq tn (JNum a) (JStr s) = (StringToNumber tn s = Some a)"
| "loose_eq tn (JStr s) (JNum a) = (StringToNumber tn s = Some a)"
| "loose_eq tn JUndefined JNull = True"
| "loose_eq tn JNull JUndefined = True"
| "loose_eq tn x y = strict_eq x y"

section \<open>Records, errors and responses\<close>

text \<open>A restaurant as the server sends it; the fields are those the helper reads.\<close>

record restaurant =
  id' :: jsval
  name :: jsval
  neighborhood :: jsval
  cuisine_type :: jsval
  photograph :: jsval

text \<open>
  A review. A review that the page submits has no \<open>review_id\<close> (the source's field \<^verbatim>\<open>id\<close>) and
  no timestamps yet: those fields are \<open>JUndefined\<close>.
\<close>

record review =
  review_id :: jsval
  restaurant_id :: jsval
  reviewer :: jsval
  rating :: jsval
  comments :: jsval
  createdAt :: jsval
  updatedAt :: jsval

text \<open>
  What can be thrown, rejected or handed to a callback as its first argument:
  the engine's \<^verbatim>\<open>TypeError\<close> (a property read on \<^verbatim>\<open>undefined\<close>) and \<^verbatim>\<open>ReferenceError\<close>
  (an unbound identifier), the store's \<^verbatim>\<open>DataError\<close> (a record with no valid key),
  a rejected \<^verbatim>\<open>fetch\<close>, a rejected \<^verbatim>\<open>res.json()\<close>, and a plain string.
\<close>

datatype error =
    TypeError string
  | ReferenceError string
  | DataError
  | NetworkError
  | SyntaxError
  | Message string

text \<open>
  The outcome of \<^verbatim>\<open>fetch(url)\<close> followed by \<^verbatim>\<open>res.json()\<close>: \<^verbatim>\<open>fetch\<close> rejects, or
  it resolves with a response whose body does not parse, or whose body parses. The flag is
  \<^verbatim>\<open>res.ok\<close>, a status from 200 to 299; the module never reads it.
\<close>

datatype 'a response = NetworkFailure | InvalidJson bool | Json bool 'a

datatype request = GetRestaurants | GetReviews jsval | PostReview review

text \<open>
  A completion callback receives \<^verbatim>\<open>(error, data)\<close>; \<open>None\<close> is \<^verbatim>\<open>null\<close> (or an argument
  that is not passed). A callback either throws or returns; what it returns here is the list of
  calls that reached the caller of the helper.
\<close>

type_synonym 'a cb_args = "error option \<times> 'a option"

type_synonym ('a, 'o) callback = "'a cb_args \<Rightarrow> error + 'o list"

text \<open>The caller's callback: it records the pair it is called with.\<close>

definition record_cb :: "('a, 'a cb_args) callback" where
  "record_cb args = Inr [args]"

text \<open>\<^verbatim>\<open>if (error)\<close>: \<^verbatim>\<open>null\<close> and the empty string are falsy, an error object is truthy.\<close>

fun truthy :: "error option \<Rightarrow> bool" where
  "truthy None = False"
| "truthy (Some (Message s)) = (s \<noteq> [])"
| "truthy (Some e) = True"

section \<open>The IndexedDB database\<close>

text \<open>
  An object store with an in-line key: its records in ascending key order. Valid keys are
  numbers and strings; numbers sort before strings, strings by their code units.
\<close>

type_synonym 'v object_store = "(jsval \<times> 'v) list"

fun valid_key :: "jsval \<Rightarrow> bool" where
  "valid_key (JNum n) = True"
| "valid_key (JStr s) = True"
| "valid_key v = False"

fun key_less :: "jsval \<Rightarrow> jsval \<Rightarrow> bool" where
  "key_less (JNum a) (JNum b) = (a < b)"
| "key_less (JNum a) (JStr t) = True"
| "key_less (JStr s) (JStr t) = (s < t)"
| "key_less x y = False"

fun store_insert :: "jsval \<Rightarrow> 'v \<Rightarrow> 'v object_store \<Rightarrow> 'v object_store" where
  "store_insert k v [] = [(k, v)]"
| "store_insert k v ((k', v') # s) =
     (if key_less k k' then (k, v) # (k', v') # s else (k', v') # store_insert k v s)"

definition store_delete :: "jsval \<Rightarrow> 'v object_store \<Rightarrow> 'v object_store" where
  "store_delete k s = filter (\<lambda>(k', v'). k' \<noteq> k) s"

text \<open>
  \<^verbatim>\<open>store.put(record)\<close>, the key read from the record at the store's key path: the record
  replaces the one stored under the same key; a record without a valid key is refused
  (\<open>Inl\<close>, the rejected promise of the wrapper) and the store stays as it is.
\<close>

definition store_put :: "jsval \<Rightarrow> 'v \<Rightarrow> 'v object_store \<Rightarrow> error + 'v object_store" where
  "store_put k v s =
     (if valid_key k then Inr (store_insert k v (store_delete k s)) else Inl DataError)"

definition store_getAll :: "'v object_store \<Rightarrow> 'v list" where
  "store_getAll s = map snd s"

text \<open>The keys of a store, with their multiplicities.\<close>

definition store_keys :: "'v object_store \<Rightarrow> jsval multiset" where
  "store_keys s = mset (map fst s)"

text \<open>
  An index over a field: the records whose field is a valid key, by field value and then by
  primary key. \<^verbatim>\<open>index.getAll(query)\<close> returns the records under the key \<open>query\<close>, and every
  record of the index when \<open>query\<close> is \<^verbatim>\<open>undefined\<close> or \<^verbatim>\<open>null\<close>.
\<close>

definition index_entries :: "('v \<Rightarrow> jsval) \<Rightarrow> 'v object_store \<Rightarrow> 'v object_store" where
  "index_entries f s = map (\<lambda>(k, v). (f v, v)) (filter (\<lambda>(k, v). valid_key (f v)) s)"

definition index_sorted :: "('v \<Rightarrow> jsval) \<Rightarrow> 'v object_store \<Rightarrow> 'v object_store" where
  "index_sorted f s = foldl (\<lambda>acc (ik, v). store_insert ik v acc) [] (index_entries f s)"

definition index_getAll :: "('v \<Rightarrow> jsval) \<Rightarrow> 'v object_store \<Rightarrow> jsval \<Rightarrow> 'v list" where
  "index_getAll f s query =
     (if valid_key query
      then map snd (filter (\<lambda>(ik, v). ik = query) (index_sorted f s))
      else map snd (index_sorted f s))"

text \<open>
  The database \<^verbatim>\<open>restaurantDatabase\<close>, version 1, as the upgrade callback of
  \<^verbatim>\<open>openIDBConnection\<close> creates it: \<^verbatim>\<open>restaurantObject\<close> keyed by \<^verbatim>\<open>id\<close>,
  \<^verbatim>\<open>reviewsObject\<close> keyed by \<^verbatim>\<open>id\<close> with an index on \<^verbatim>\<open>restaurant_id\<close>, and
  \<^verbatim>\<open>reviewsOfflineObject\<close> keyed by \<^verbatim>\<open>updatedAt\<close>.
\<close>

record idb =
  restaurantObject :: "restaurant object_store"
  reviewsObject :: "review object_store"
  reviewsOfflineObject :: "review object_store"

definition IDB_OBJECT :: string where
  "IDB_OBJECT = ''restaurantObject''"

definition IDB_REVIEWS_OBJECT :: string where
  "IDB_REVIEWS_OBJECT = ''reviewsObject''"

definition IDB_REVIEWS_OBJECT_OFFLINE :: string where
  "IDB_REVIEWS_OBJECT_OFFLINE = ''reviewsOfflineObject''"

section \<open>The environment of the helper\<close>

text \<open>
  Everything outside the module: whether \<^verbatim>\<open>navigator.serviceWorker\<close> is there, the content of
  the database, the global object, what the server answers, the clock behind
  \<^verbatim>\<open>new Date().getTime()\<close> (its successive readings), and the log of the requests sent.
\<close>

record world =
  serviceWorker :: bool
  database :: idb
  globals :: "string \<Rightarrow> jsval option"
  restaurants_endpoint :: "restaurant list response"
  reviews_endpoint :: "jsval \<Rightarrow> review list response"
  create_review_endpoint :: "review \<Rightarrow> review response"
  clock :: "nat \<Rightarrow> int"
  clock_reads :: nat
  requests :: "request list"

text \<open>
  The module's own \<^verbatim>\<open>const\<close> bindings (lines 7 to 11). An identifier that the module does not
  bind is looked up in the global object, and is a \<^verbatim>\<open>ReferenceError\<close> when it is not there.
\<close>

definition module_constants :: "(string \<times> jsval) list" where
  "module_constants =
     [(''IDB_DATABASE'', JStr ''restaurantDatabase''),
      (''IDB_OBJECT'', JStr IDB_OBJECT),
      (''IDB_REVIEWS_OBJECT'', JStr IDB_REVIEWS_OBJECT),
      (''IDB_REVIEWS_OBJECT_OFFLINE'', JStr IDB_REVIEWS_OBJECT_OFFLINE),
      (''PORT'', JNum 1337)]"

definition resolve_identifier :: "world \<Rightarrow> string \<Rightarrow> error + jsval" where
  "resolve_identifier w x =
     (case map_of module_constants x of
        Some v \<Rightarrow> Inr v
      | None \<Rightarrow> (case globals w x of Some v \<Rightarrow> Inr v | None \<Rightarrow> Inl (ReferenceError x)))"

definition getTime :: "world \<Rightarrow> int \<times> world" where
  "getTime w = (clock w (clock_reads w), w\<lparr>clock_reads := Suc (clock_reads w)\<rparr>)"

section \<open>The helper\<close>

text \<open>
  \<^verbatim>\<open>openIDBConnection\<close>: no handle (\<^verbatim>\<open>undefined\<close>) without a service worker. With one,
  \<^verbatim>\<open>idb.open\<close> is taken to succeed; the stores that its upgrade callback creates are the
  three fields of \<open>idb\<close>, empty at first.
\<close>

definition openIDBConnection :: "world \<Rightarrow> idb option" where
  "openIDBConnection w = (if \<not> serviceWorker w then None else Some (database w))"

text \<open>
  \<^verbatim>\<open>data.forEach(restaurant => store.put(restaurant))\<close>: every record is put. The
  \<^verbatim>\<open>put\<close> of the \<^verbatim>\<open>idb\<close> wrapper returns a promise; for a record that the store refuses
  the promise rejects, nobody looks at it, and the loop goes on with the next record.
\<close>

fun put_each :: "restaurant list \<Rightarrow> restaurant object_store \<Rightarrow> restaurant object_store" where
  "put_each [] s = s"
| "put_each (r # rs) s =
     (case store_put (id' r) r s of
        Inl e \<Rightarrow> put_each rs s
      | Inr s' \<Rightarrow> put_each rs s')"

text \<open>
  The first argument of \<^verbatim>\<open>saveToIDB\<close> is an array of restaurants or one review.
\<close>

datatype save_data = Restaurants "restaurant list" | Review review

text \<open>
  \<^verbatim>\<open>saveToIDB(data, storeToSaveInto)\<close>. No caller looks at the promise it returns, so a
  failure inside it (a refused \<^verbatim>\<open>put\<close>, \<^verbatim>\<open>forEach\<close> on a review, an array put where a
  record with a key is needed) leaves the database as it is and is seen by nobody. Operations
  are modelled one after the other: the transaction of a save is complete before the next
  operation reads the database.
\<close>

definition saveToIDB :: "save_data \<Rightarrow> string \<Rightarrow> world \<Rightarrow> world" where
  "saveToIDB data storeToSaveInto w =
     (case openIDBConnection w of
        None \<Rightarrow> w
      | Some db \<Rightarrow>
          if storeToSaveInto = IDB_REVIEWS_OBJECT then
            (case data of
               Review d \<Rightarrow>
                 (case store_put (review_id d) d (reviewsObject db) of
                    Inl e \<Rightarrow> w
                  | Inr s \<Rightarrow> w\<lparr>database := db\<lparr>reviewsObject := s\<rparr>\<rparr>)
             | Restaurants rs \<Rightarrow> w)
          else if storeToSaveInto = IDB_REVIEWS_OBJECT_OFFLINE then
            (case data of
               Review d \<Rightarrow>
                 (case store_put (updatedAt d) d (reviewsOfflineObject db) of
                    Inl e \<Rightarrow> w
                  | Inr s \<Rightarrow> w\<lparr>database := db\<lparr>reviewsOfflineObject := s\<rparr>\<rparr>)
             | Restaurants rs \<Rightarrow> w)
          else
            (case data of
               Restaurants rs \<Rightarrow>
                 w\<lparr>database := db\<lparr>restaurantObject := put_each rs (restaurantObject db)\<rparr>\<rparr>
             | Review d \<Rightarrow> w))"

text \<open>
  A promise chain \<^verbatim>\<open>.then(x => cb(null, x)).catch(e => cb(e, null))\<close>: the handler of
  \<^verbatim>\<open>catch\<close> also runs when the callback throws inside \<^verbatim>\<open>then\<close>; what the handler itself
  throws is an unhandled rejection.
\<close>

definition on_rejected :: "('a, 'o) callback \<Rightarrow> error \<Rightarrow> 'o list" where
  "on_rejected cb e = (case cb (Some e, None) of Inl e' \<Rightarrow> [] | Inr out \<Rightarrow> out)"

definition on_fulfilled :: "('a, 'o) callback \<Rightarrow> 'a \<Rightarrow> 'o list" where
  "on_fulfilled cb x = (case cb (None, Some x) of Inl e \<Rightarrow> on_rejected cb e | Inr out \<Rightarrow> out)"

text \<open>\<^verbatim>\<open>fetchCachedRestaurants\<close>: \<open>None\<close> is the \<^verbatim>\<open>undefined\<close> of the early return.\<close>

definition fetchCachedRestaurants :: "world \<Rightarrow> restaurant list option" where
  "fetchCachedRestaurants w =
     (case openIDBConnection w of
        None \<Rightarrow> None
      | Some db \<Rightarrow> Some (store_getAll (restaurantObject db)))"

definition fetchRestaurantsFromAPI :: "world \<Rightarrow> world \<times> (error + restaurant list)" where
  "fetchRestaurantsFromAPI w =
     (let w1 = w\<lparr>requests := requests w @ [GetRestaurants]\<rparr> in
      case restaurants_endpoint w of
        NetworkFailure \<Rightarrow> (w1, Inl NetworkError)
      | InvalidJson ok \<Rightarrow> (w1, Inl SyntaxError)
      | Json ok restaurants \<Rightarrow>
          (saveToIDB (Restaurants restaurants) IDB_OBJECT w1, Inr restaurants))"

text \<open>
  \<^verbatim>\<open>fetchRestaurants(cb)\<close>. Reading \<^verbatim>\<open>restaurants.length\<close> when
  \<^verbatim>\<open>fetchCachedRestaurants\<close> resolved with \<^verbatim>\<open>undefined\<close> throws a \<^verbatim>\<open>TypeError\<close>, which
  the \<^verbatim>\<open>catch\<close> at the end of the chain receives.
\<close>

definition fetchRestaurants :: "(restaurant list, 'o) callback \<Rightarrow> world \<Rightarrow> world \<times> 'o list" where
  "fetchRestaurants cb w =
     (case fetchCachedRestaurants w of
        None \<Rightarrow> (w, on_rejected cb (TypeError ''length''))
      | Some restaurants \<Rightarrow>
          if length restaurants \<noteq> 0 then (w, on_fulfilled cb restaurants)
          else
            (case fetchRestaurantsFromAPI w of
               (w', Inl e) \<Rightarrow> (w', on_rejected cb e)
             | (w', Inr restaurants') \<Rightarrow> (w', on_fulfilled cb restaurants')))"

text \<open>
  The callbacks that the query functions hand to \<^verbatim>\<open>fetchRestaurants\<close>. Each reads
  \<^verbatim>\<open>restaurants\<close> only where \<^verbatim>\<open>error\<close> is falsy; a method call on \<^verbatim>\<open>null\<close> there would
  throw a \<^verbatim>\<open>TypeError\<close>.
\<close>

definition with_restaurants ::
  "(restaurant list \<Rightarrow> error + 'o list) \<Rightarrow> ('b, 'o) callback \<Rightarrow> (restaurant list, 'o) callback" where
  "with_restaurants body callback args =
     (case args of (error, restaurants) \<Rightarrow>
        if truthy error then callback (error, None)
        else (case restaurants of
                None \<Rightarrow> Inl (TypeError ''restaurants'')
              | Some rs \<Rightarrow> body rs))"

definition fetchRestaurantById ::
  "(string \<Rightarrow> int option) \<Rightarrow> jsval \<Rightarrow> (restaurant, 'o) callback \<Rightarrow>
     world \<Rightarrow> world \<times> 'o list" where
  "fetchRestaurantById tn ident callback w =
     fetchRestaurants
       (with_restaurants
          (\<lambda>restaurants.
             case find (\<lambda>r. loose_eq tn (id' r) ident) restaurants of
               Some restaurant \<Rightarrow> callback (None, Some restaurant)
             | None \<Rightarrow> callback (Some (Message ''Restaurant does not exist''), None))
          callback) w"

definition fetchRestaurantByCuisine ::
  "(string \<Rightarrow> int option) \<Rightarrow> jsval \<Rightarrow> (restaurant list, 'o) callback \<Rightarrow>
     world \<Rightarrow> world \<times> 'o list" where
  "fetchRestaurantByCuisine tn cuisine callback w =
     fetchRestaurants
       (with_restaurants
          (\<lambda>restaurants.
             let results = filter (\<lambda>r. loose_eq tn (cuisine_type r) cuisine) restaurants
             in callback (None, Some results))
          callback) w"

definition fetchRestaurantByNeighborhood ::
  "(string \<Rightarrow> int option) \<Rightarrow> jsval \<Rightarrow> (restaurant list, 'o) callback \<Rightarrow>
     world \<Rightarrow> world \<times> 'o list" where
  "fetchRestaurantByNeighborhood tn nbh callback w =
     fetchRestaurants
       (with_restaurants
          (\<lambda>restaurants.
             let results = filter (\<lambda>r. loose_eq tn (neighborhood r) nbh) restaurants
             in callback (None, Some results))
          callback) w"

definition fetchRestaurantByCuisineAndNeighborhood ::
  "(string \<Rightarrow> int option) \<Rightarrow> jsval \<Rightarrow> jsval \<Rightarrow> (restaurant list, 'o) callback \<Rightarrow>
     world \<Rightarrow> world \<times> 'o list" where
  "fetchRestaurantByCuisineAndNeighborhood tn cuisine nbh callback w =
     fetchRestaurants
       (with_restaurants
          (\<lambda>restaurants.
             let results = restaurants;
                 results = (if \<not> loose_eq tn cuisine (JStr ''all'')
                            then filter (\<lambda>r. loose_eq tn (cuisine_type r) cuisine) results
                            else results);
                 results = (if \<not> loose_eq tn nbh (JStr ''all'')
                            then filter (\<lambda>r. loose_eq tn (neighborhood r) nbh) results
                            else results)
             in callback (None, Some results))
          callback) w"

text \<open>\<^verbatim>\<open>xs.indexOf(v)\<close>: the first index whose element is strictly equal to \<open>v\<close>, or \<open>-1\<close>.\<close>

fun indexOf_from :: "int \<Rightarrow> jsval list \<Rightarrow> jsval \<Rightarrow> int" where
  "indexOf_from i [] v = - 1"
| "indexOf_from i (x # xs) v = (if strict_eq x v then i else indexOf_from (i + 1) xs v)"

definition indexOf :: "jsval list \<Rightarrow> jsval \<Rightarrow> int" where
  "indexOf xs v = indexOf_from 0 xs v"

text \<open>\<^verbatim>\<open>xs.filter((v, i) => xs.indexOf(v) == i)\<close>\<close>

definition unique_values :: "(string \<Rightarrow> int option) \<Rightarrow> jsval list \<Rightarrow> jsval list" where
  "unique_values tn xs =
     map snd
       (filter (\<lambda>(i, v). loose_eq tn (JNum (indexOf xs v)) (JNum (int i))) (enumerate 0 xs))"

text \<open>\<^verbatim>\<open>restaurants.map((v, i) => restaurants[i].field)\<close>\<close>

definition field_values :: "(restaurant \<Rightarrow> jsval) \<Rightarrow> restaurant list \<Rightarrow> jsval list" where
  "field_values field restaurants =
     map (\<lambda>(i, v). field (restaurants ! i)) (enumerate 0 restaurants)"

definition fetchNeighborhoods ::
  "(string \<Rightarrow> int option) \<Rightarrow> (jsval list, 'o) callback \<Rightarrow> world \<Rightarrow> world \<times> 'o list" where
  "fetchNeighborhoods tn callback w =
     fetchRestaurants
       (with_restaurants
          (\<lambda>restaurants.
             let neighborhoods = field_values neighborhood restaurants;
                 uniqueNeighborhoods = unique_values tn neighborhoods
             in callback (None, Some uniqueNeighborhoods))
          callback) w"

definition fetchCuisines ::
  "(string \<Rightarrow> int option) \<Rightarrow> (jsval list, 'o) callback \<Rightarrow> world \<Rightarrow> world \<times> 'o list" where
  "fetchCuisines tn callback w =
     fetchRestaurants
       (with_restaurants
          (\<lambda>restaurants.
             let cuisines = field_values cuisine_type restaurants;
                 uniqueCuisines = unique_values tn cuisines
             in callback (None, Some uniqueCuisines))
          callback) w"

text \<open>
  \<^verbatim>\<open>fetchCachedReviews(id)\<close>: the reviews under the key \<^verbatim>\<open>id\<close> of the index
  \<^verbatim>\<open>restaurant_id\<close>.
\<close>

definition fetchCachedReviews :: "jsval \<Rightarrow> world \<Rightarrow> review list option" where
  "fetchCachedReviews ident w =
     (case openIDBConnection w of
        None \<Rightarrow> None
      | Some db \<Rightarrow> Some (index_getAll restaurant_id (reviewsObject db) ident))"

text \<open>
  \<^verbatim>\<open>fetchReviewsFromAPI(id, cb)\<close>: every review of the answer is saved on its own, then the
  callback is called; the \<^verbatim>\<open>catch\<close> of the chain calls it again when it threw. \<open>Inl\<close> is the
  promise rejected, by a callback that threw inside the \<^verbatim>\<open>catch\<close>.
\<close>

definition fetchReviewsFromAPI ::
  "jsval \<Rightarrow> (review list, 'o) callback \<Rightarrow> world \<Rightarrow> world \<times> (error + 'o list)" where
  "fetchReviewsFromAPI ident cb w =
     (let w1 = w\<lparr>requests := requests w @ [GetReviews ident]\<rparr> in
      case reviews_endpoint w ident of
        NetworkFailure \<Rightarrow> (w1, cb (Some NetworkError, None))
      | InvalidJson ok \<Rightarrow> (w1, cb (Some SyntaxError, None))
      | Json ok data \<Rightarrow>
          (let w2 = foldl (\<lambda>w' d. saveToIDB (Review d) IDB_REVIEWS_OBJECT w') w1 data in
           case cb (None, Some data) of
             Inl e \<Rightarrow> (w2, cb (Some e, None))
           | Inr out \<Rightarrow> (w2, Inr out)))"

definition fetchReviews ::
  "jsval \<Rightarrow> (review list, 'o) callback \<Rightarrow> world \<Rightarrow> world \<times> 'o list" where
  "fetchReviews ident cb w =
     (case fetchCachedReviews ident w of
        None \<Rightarrow> (w, on_rejected cb (TypeError ''length''))
      | Some reviews \<Rightarrow>
          if length reviews \<noteq> 0 then (w, on_fulfilled cb reviews)
          else
            (case fetchReviewsFromAPI ident cb w of
               (w', Inl e) \<Rightarrow> (w', on_rejected cb e)
             | (w', Inr out) \<Rightarrow> (w', out)))"

text \<open>
  The \<^verbatim>\<open>catch\<close> of \<^verbatim>\<open>addReview\<close>: the submitted review gets \<^verbatim>\<open>updatedAt\<close>, then
  \<^verbatim>\<open>createdAt\<close>, each from a reading of the clock, and goes to the offline store.
\<close>

definition addReview_rejected :: "review \<Rightarrow> world \<Rightarrow> world" where
  "addReview_rejected data w =
     (let (t1, w1) = getTime w;
          data1 = data\<lparr>updatedAt := JNum t1\<rparr>;
          (t2, w2) = getTime w1;
          data2 = data1\<lparr>createdAt := JNum t2\<rparr>
      in saveToIDB (Review data2) IDB_REVIEWS_OBJECT_OFFLINE w2)"

text \<open>
  \<^verbatim>\<open>addReview(data, cb)\<close>. The URL of the request is built from the identifier
  \<^verbatim>\<open>port\<close> (line 133), which is evaluated before \<^verbatim>\<open>fetch\<close> is called: \<open>Inl\<close> is the exception
  that \<^verbatim>\<open>addReview\<close> throws to its caller. In the \<^verbatim>\<open>then\<close> of the chain the answer is saved
  once \<^verbatim>\<open>res.json()\<close> has it, and \<^verbatim>\<open>cb(null)\<close> is called; the \<^verbatim>\<open>catch\<close> of the chain
  runs when the request fails and when the callback throws, and calls no callback.
\<close>

definition addReview ::
  "review \<Rightarrow> (unit, 'o) callback \<Rightarrow> world \<Rightarrow> error + world \<times> 'o list" where
  "addReview data cb w =
     (case resolve_identifier w ''port'' of
        Inl e \<Rightarrow> Inl e
      | Inr port \<Rightarrow>
          Inr (let w1 = w\<lparr>requests := requests w @ [PostReview data]\<rparr> in
               case create_review_endpoint w data of
                 NetworkFailure \<Rightarrow> (addReview_rejected data w1, [])
               | InvalidJson ok \<Rightarrow>
                   (case cb (None, None) of
                      Inl e \<Rightarrow> (addReview_rejected data w1, [])
                    | Inr out \<Rightarrow> (w1, out))
               | Json ok d \<Rightarrow>
                   (let w2 = saveToIDB (Review d) IDB_REVIEWS_OBJECT w1 in
                    case cb (None, None) of
                      Inl e \<Rightarrow> (addReview_rejected data w2, [])
                    | Inr out \<Rightarrow> (w2, out))))"

section \<open>The specification's words\<close>

text \<open>
  \<open>distinctValuesOf\<close>: each value once, in the order of first appearance. \<open>seen\<close> holds the
  values met so far.
\<close>

fun first_seen :: "jsval list \<Rightarrow> jsval list \<Rightarrow> jsval list" where
  "first_seen seen [] = []"
| "first_seen seen (x # xs) =
     (if x \<in> set seen then first_seen seen xs else x # first_seen (x # seen) xs)"

definition distinctValuesOf :: "(restaurant \<Rightarrow> jsval) \<Rightarrow> restaurant list \<Rightarrow> jsval list" where
  "distinctValuesOf field rs = first_seen [] (map field rs)"

text \<open>
  \<open>byField\<close> and \<open>byTwoFields\<close>: the value \<^verbatim>\<open>"all"\<close> means no filter on the field; the
  filters that remain are applied in sequence, from the full set.
\<close>

definition byField ::
  "(string \<Rightarrow> int option) \<Rightarrow> (restaurant \<Rightarrow> jsval) \<Rightarrow> jsval \<Rightarrow>
     restaurant list \<Rightarrow> restaurant list" where
  "byField tn field v rs =
     (if v = JStr ''all'' then rs else filter (\<lambda>r. loose_eq tn (field r) v) rs)"

definition byTwoFields ::
  "(string \<Rightarrow> int option) \<Rightarrow> (restaurant \<Rightarrow> jsval) \<Rightarrow> jsval \<Rightarrow>
     (restaurant \<Rightarrow> jsval) \<Rightarrow> jsval \<Rightarrow> restaurant list \<Rightarrow> restaurant list" where
  "byTwoFields tn f1 v1 f2 v2 rs = byField tn f2 v2 (byField tn f1 v1 rs)"


text \<open>
  What the code counts as success of a read: the records were obtained, from the store where
  it has some for the query, or from a response whose body parses, whatever its status.
\<close>

fun parsed :: "'a response \<Rightarrow> bool" where
  "parsed (Json ok x) = True"
| "parsed r = False"



section \<open>Example data\<close>

definition example_restaurant :: "int \<Rightarrow> string \<Rightarrow> string \<Rightarrow> restaurant" where
  "example_restaurant n nb cu =
     \<lparr>id' = JNum n, name = JStr ''Mission Chinese Food'', neighborhood = JStr nb,
      cuisine_type = JStr cu, photograph = JStr ''1''\<rparr>"

definition example_restaurants :: "restaurant list" where
  "example_restaurants =
     [example_restaurant 1 ''Manhattan'' ''Asian'',
      example_restaurant 2 ''Brooklyn'' ''Pizza'',
      example_restaurant 3 ''Manhattan'' ''Asian'',
      example_restaurant 4 ''Queens'' ''Mexican'',
      example_restaurant 5 ''Brooklyn'' ''Pizza'']"

definition example_review :: review where
  "example_review =
     \<lparr>review_id = JUndefined, restaurant_id = JNum 3, reviewer = JStr ''Ann'',
      rating = JNum 4, comments = JStr ''Good'', createdAt = JUndefined,
      updatedAt = JUndefined\<rparr>"

definition example_created :: review where
  "example_created =
     example_review\<lparr>review_id := JNum 31, createdAt := JNum 1000, updatedAt := JNum 1000\<rparr>"

definition empty_idb :: idb where
  "empty_idb = \<lparr>restaurantObject = [], reviewsObject = [], reviewsOfflineObject = []\<rparr>"

text \<open>
  A browser with a service worker, an empty database, no global named \<^verbatim>\<open>port\<close>, and a
  server that answers every request.
\<close>

definition example_world :: world where
  "example_world =
     \<lparr>serviceWorker = True, database = empty_idb, globals = (\<lambda>x. None),
      restaurants_endpoint = Json True example_restaurants,
      reviews_endpoint = (\<lambda>i. if i = JNum 3 then Json True [example_created] else Json True []),
      create_review_endpoint = (\<lambda>d. Json True example_created),
      clock = (\<lambda>n. 1000 + int n), clock_reads = 0, requests = []\<rparr>"


text \<open>The same browser, with one review of restaurant 3 in the reviews store.\<close>

definition cached_review_world :: world where
  "cached_review_world =
     example_world\<lparr>database := empty_idb\<lparr>reviewsObject := [(JNum 31, example_created)]\<rparr>\<rparr>"

lemma field_values_map: "field_values f rs = map f rs"
  by (simp add: field_values_def list_eq_iff_nth_eq nth_enumerate_eq)

section \<open>Facts about the values\<close>

lemma StringToNumber_all: "StringToNumber tn ''all'' = None"
  by (simp add: StringToNumber_def numeric_char_def)

lemma loose_eq_all: "loose_eq tn x (JStr ''all'') = (x = JStr ''all'')"
  by (cases x) (auto simp: strict_eq_def StringToNumber_all)

lemma digitValue_numeric: "digitValue c = Some d \<Longrightarrow> numeric_char c"
  by (auto simp: digitValue_def numeric_char_def split: if_splits)

lemma decimalDigits_numeric: "decimalDigits acc s = Some v \<Longrightarrow> list_all numeric_char s"
  by (induction s arbitrary: acc) (auto simp: digitValue_numeric split: option.splits)

lemma StringToNumber_digits:
  "digits_value s = Some v \<Longrightarrow> v \<le> 2 ^ 53 \<Longrightarrow> StringToNumber tn s = Some (int v)"
  by (auto simp: StringToNumber_def digits_value_def decimalDigits_numeric split: if_splits)

section \<open>What \<^verbatim>\<open>fetchRestaurants\<close> hands to its callback\<close>

text \<open>
  Whatever callback \<^verbatim>\<open>fetchRestaurants\<close> is given, it settles it the way it settles the
  recording callback: with the restaurants, or with the error of the chain.
\<close>

lemma fetchRestaurants_fulfilled:
  "fetchRestaurants record_cb w = (w', [(None, Some rs)]) \<Longrightarrow>
   fetchRestaurants cb w = (w', on_fulfilled cb rs)"
  by (auto simp: fetchRestaurants_def on_fulfilled_def on_rejected_def record_cb_def
           split: option.splits if_splits prod.splits sum.splits)

lemma fetchRestaurants_rejected:
  "fetchRestaurants record_cb w = (w', [(Some e, None)]) \<Longrightarrow>
   fetchRestaurants cb w = (w', on_rejected cb e)"
  by (auto simp: fetchRestaurants_def on_fulfilled_def on_rejected_def record_cb_def
           split: option.splits if_splits prod.splits sum.splits)

lemma fetchRestaurants_rejected_error:
  "fetchRestaurants record_cb w = (w', [(Some e, None)]) \<Longrightarrow>
   e = TypeError ''length'' \<or> e = NetworkError \<or> e = SyntaxError"
  by (auto simp: fetchRestaurants_def fetchRestaurantsFromAPI_def on_fulfilled_def on_rejected_def
                 record_cb_def Let_def
           split: option.splits if_splits prod.splits sum.splits response.splits)

lemma fetchRestaurants_outcome_ex:
  "\<exists>w'. (\<exists>rs. fetchRestaurants record_cb w = (w', [(None, Some rs)])) \<or>
        (\<exists>e. fetchRestaurants record_cb w = (w', [(Some e, None)]))"
  by (auto simp: fetchRestaurants_def on_fulfilled_def on_rejected_def record_cb_def
           split: option.splits if_splits prod.splits sum.splits)

lemma fetchRestaurants_outcome:
  obtains (fulfilled) w' rs where "fetchRestaurants record_cb w = (w', [(None, Some rs)])"
        | (rejected) w' e where "fetchRestaurants record_cb w = (w', [(Some e, None)])"
  using fetchRestaurants_outcome_ex [of w] by blast

lemma with_restaurants_fulfilled:
  "on_fulfilled (with_restaurants body record_cb) rs =
     (case body rs of Inl e \<Rightarrow> on_rejected (with_restaurants body record_cb) e | Inr out \<Rightarrow> out)"
  by (simp add: on_fulfilled_def with_restaurants_def)

lemma with_restaurants_rejected:
  "truthy (Some e) \<Longrightarrow> on_rejected (with_restaurants body record_cb) e = [(Some e, None)]"
  by (simp add: on_rejected_def with_restaurants_def record_cb_def)

lemma query_fulfilled:
  assumes "fetchRestaurants record_cb w = (w', [(None, Some rs)])"
  shows "fetchRestaurants (with_restaurants body record_cb) w =
           (w', case body rs of Inl e \<Rightarrow> on_rejected (with_restaurants body record_cb) e | Inr out \<Rightarrow> out)"
  unfolding fetchRestaurants_fulfilled [OF assms] with_restaurants_fulfilled by (rule refl)

lemma query_rejected:
  assumes "fetchRestaurants record_cb w = (w', [(Some e, None)])"
  shows "fetchRestaurants (with_restaurants body record_cb) w = (w', [(Some e, None)])"
proof -
  from fetchRestaurants_rejected_error [OF assms] have "truthy (Some e)" by auto
  then show ?thesis
    unfolding fetchRestaurants_rejected [OF assms] by (simp add: with_restaurants_rejected)
qed

lemma example_fetch:
  "fetchRestaurants record_cb example_world
     = (fst (fetchRestaurants record_cb example_world), [(None, Some example_restaurants)])"
proof -
  have "snd (fetchRestaurants record_cb example_world) = [(None, Some example_restaurants)]"
    by (simp add: fetchRestaurants_def fetchCachedRestaurants_def openIDBConnection_def
          example_world_def empty_idb_def store_getAll_def fetchRestaurantsFromAPI_def
          on_fulfilled_def record_cb_def)
  then show ?thesis by (simp add: prod_eq_iff)
qed

section \<open>Filters with the sentinel \<^verbatim>\<open>"all"\<close>\<close>

lemma byField_commute:
  "byField tn f1 v1 (byField tn f2 v2 rs) = byField tn f2 v2 (byField tn f1 v1 rs)"
  by (auto simp: byField_def intro: filter_cong)

text \<open>
  C5. \<^verbatim>\<open>fetchRestaurantByCuisineAndNeighborhood\<close> with both arguments \<^verbatim>\<open>"all"\<close> calls back
  with what \<^verbatim>\<open>fetchRestaurants\<close> calls back with, the full list; with a cuisine other than
  \<^verbatim>\<open>"all"\<close> and the neighborhood \<^verbatim>\<open>"all"\<close> it is \<^verbatim>\<open>fetchRestaurantByCuisine\<close>, and with
  a neighborhood other than \<^verbatim>\<open>"all"\<close> and the cuisine \<^verbatim>\<open>"all"\<close> it is
  \<^verbatim>\<open>fetchRestaurantByNeighborhood\<close>; on every list of restaurants its result is the two
  filters applied in sequence, and the two orders give the same list.
\<close>

theorem sentinel_filter_composition:
  "fetchRestaurantByCuisineAndNeighborhood tn (JStr ''all'') (JStr ''all'') record_cb w
     = fetchRestaurants record_cb w
   \<and> (cuisine \<noteq> JStr ''all'' \<longrightarrow>
        fetchRestaurantByCuisineAndNeighborhood tn cuisine (JStr ''all'') record_cb w
          = fetchRestaurantByCuisine tn cuisine record_cb w)
   \<and> (nbh \<noteq> JStr ''all'' \<longrightarrow>
        fetchRestaurantByCuisineAndNeighborhood tn (JStr ''all'') nbh record_cb w
          = fetchRestaurantByNeighborhood tn nbh record_cb w)
   \<and> (fetchRestaurants record_cb w = (w', [(None, Some rs)]) \<longrightarrow>
        fetchRestaurantByCuisineAndNeighborhood tn cuisine nbh record_cb w
          = (w', [(None, Some (byTwoFields tn cuisine_type cuisine neighborhood nbh rs))])
        \<and> byTwoFields tn cuisine_type cuisine neighborhood nbh rs
          = byTwoFields tn neighborhood nbh cuisine_type cuisine rs)"
proof -
  have both: "fetchRestaurantByCuisineAndNeighborhood tn (JStr ''all'') (JStr ''all'') record_cb w
     = fetchRestaurants record_cb w"
  proof (cases w rule: fetchRestaurants_outcome)
    case a: (fulfilled w1 rs0)
    show ?thesis
      unfolding fetchRestaurantByCuisineAndNeighborhood_def query_fulfilled [OF a]
      by (simp add: a record_cb_def loose_eq_all)
  next
    case a: (rejected w1 e)
    show ?thesis
      unfolding fetchRestaurantByCuisineAndNeighborhood_def query_rejected [OF a]
      by (simp add: a)
  qed
  have cu: "fetchRestaurantByCuisineAndNeighborhood tn cuisine (JStr ''all'') record_cb w
          = fetchRestaurantByCuisine tn cuisine record_cb w" if ne: "cuisine \<noteq> JStr ''all''"
  proof (cases w rule: fetchRestaurants_outcome)
    case a: (fulfilled w1 rs0)
    show ?thesis
      unfolding fetchRestaurantByCuisineAndNeighborhood_def fetchRestaurantByCuisine_def
        query_fulfilled [OF a]
      using ne by (simp add: record_cb_def loose_eq_all)
  next
    case a: (rejected w1 e)
    show ?thesis
      unfolding fetchRestaurantByCuisineAndNeighborhood_def fetchRestaurantByCuisine_def
        query_rejected [OF a]
      by (rule refl)
  qed
  have nb: "fetchRestaurantByCuisineAndNeighborhood tn (JStr ''all'') nbh record_cb w
          = fetchRestaurantByNeighborhood tn nbh record_cb w" if ne: "nbh \<noteq> JStr ''all''"
  proof (cases w rule: fetchRestaurants_outcome)
    case a: (fulfilled w1 rs0)
    show ?thesis
      unfolding fetchRestaurantByCuisineAndNeighborhood_def fetchRestaurantByNeighborhood_def
        query_fulfilled [OF a]
      using ne by (simp add: record_cb_def loose_eq_all)
  next
    case a: (rejected w1 e)
    show ?thesis
      unfolding fetchRestaurantByCuisineAndNeighborhood_def fetchRestaurantByNeighborhood_def
        query_rejected [OF a]
      by (rule refl)
  qed
  have two: "fetchRestaurantByCuisineAndNeighborhood tn cuisine nbh record_cb w
          = (w', [(None, Some (byTwoFields tn cuisine_type cuisine neighborhood nbh rs))])"
    if a: "fetchRestaurants record_cb w = (w', [(None, Some rs)])"
    unfolding fetchRestaurantByCuisineAndNeighborhood_def query_fulfilled [OF a]
    by (simp add: record_cb_def loose_eq_all byTwoFields_def byField_def)
  have comm: "byTwoFields tn cuisine_type cuisine neighborhood nbh rs
          = byTwoFields tn neighborhood nbh cuisine_type cuisine rs"
    unfolding byTwoFields_def by (rule byField_commute)
  from both cu nb two comm show ?thesis by blast
qed

theorem sentinel_filter_composition_witness:
  "\<forall>tn.
     fetchRestaurantByCuisineAndNeighborhood tn (JStr ''Asian'') (JStr ''all'') record_cb example_world
       = fetchRestaurantByCuisine tn (JStr ''Asian'') record_cb example_world
     \<and> fetchRestaurantByCuisineAndNeighborhood tn (JStr ''all'') (JStr ''Brooklyn'') record_cb
           example_world
       = fetchRestaurantByNeighborhood tn (JStr ''Brooklyn'') record_cb example_world
     \<and> snd (fetchRestaurantByCuisineAndNeighborhood tn (JStr ''Asian'') (JStr ''Manhattan'')
              record_cb example_world)
       = [(None, Some [example_restaurant 1 ''Manhattan'' ''Asian'',
                       example_restaurant 3 ''Manhattan'' ''Asian''])]
     \<and> byTwoFields tn neighborhood (JStr ''Manhattan'') cuisine_type (JStr ''Asian'')
           example_restaurants
       = [example_restaurant 1 ''Manhattan'' ''Asian'', example_restaurant 3 ''Manhattan'' ''Asian'']"
proof
  fix tn
  have ev: "byTwoFields tn cuisine_type (JStr ''Asian'') neighborhood (JStr ''Manhattan'')
              example_restaurants
            = [example_restaurant 1 ''Manhattan'' ''Asian'', example_restaurant 3 ''Manhattan'' ''Asian'']"
    by (simp add: byTwoFields_def byField_def example_restaurants_def example_restaurant_def
          strict_eq_def)
  from sentinel_filter_composition
         [where tn = tn and cuisine = "JStr ''Asian''" and nbh = "JStr ''Brooklyn''"
            and w = example_world
            and w' = "fst (fetchRestaurants record_cb example_world)" and rs = example_restaurants]
       sentinel_filter_composition
         [where tn = tn and cuisine = "JStr ''Asian''" and nbh = "JStr ''Manhattan''"
            and w = example_world
            and w' = "fst (fetchRestaurants record_cb example_world)" and rs = example_restaurants]
       example_fetch ev
  show "fetchRestaurantByCuisineAndNeighborhood tn (JStr ''Asian'') (JStr ''all'') record_cb example_world
       = fetchRestaurantByCuisine tn (JStr ''Asian'') record_cb example_world
     \<and> fetchRestaurantByCuisineAndNeighborhood tn (JStr ''all'') (JStr ''Brooklyn'') record_cb
           example_world
       = fetchRestaurantByNeighborhood tn (JStr ''Brooklyn'') record_cb example_world
     \<and> snd (fetchRestaurantByCuisineAndNeighborhood tn (JStr ''Asian'') (JStr ''Manhattan'')
              record_cb example_world)
       = [(None, Some [example_restaurant 1 ''Manhattan'' ''Asian'',
                       example_restaurant 3 ''Manhattan'' ''Asian''])]
     \<and> byTwoFields tn neighborhood (JStr ''Manhattan'') cuisine_type (JStr ''Asian'')
           example_restaurants
       = [example_restaurant 1 ''Manhattan'' ''Asian'', example_restaurant 3 ''Manhattan'' ''Asian'']"
    by simp
qed

section \<open>Lookup by id\<close>

text \<open>
  C7. On every list of restaurants that \<^verbatim>\<open>fetchRestaurants\<close> delivers and for every id,
  \<^verbatim>\<open>fetchRestaurantById\<close> calls back with the first record whose id is equal to the id
  asked for, by the language's \<^verbatim>\<open>==\<close> and whatever the engine's conversion \<open>tn\<close> of strings
  to numbers; when no record matches it calls back with the error
  \<^verbatim>\<open>"Restaurant does not exist"\<close> and no data. An error of \<^verbatim>\<open>fetchRestaurants\<close> itself is
  passed on as it is, and is never that string.
\<close>

theorem byId_lookup:
  "(fetchRestaurants record_cb w = (w', [(None, Some rs)]) \<longrightarrow>
      (\<forall>k. k < length rs \<and> loose_eq tn (id' (rs ! k)) ident
             \<and> (\<forall>j. j < k \<longrightarrow> \<not> loose_eq tn (id' (rs ! j)) ident) \<longrightarrow>
           fetchRestaurantById tn ident record_cb w = (w', [(None, Some (rs ! k))]))
      \<and> ((\<forall>k. k < length rs \<longrightarrow> \<not> loose_eq tn (id' (rs ! k)) ident) \<longrightarrow>
           fetchRestaurantById tn ident record_cb w
             = (w', [(Some (Message ''Restaurant does not exist''), None)])))
   \<and> (fetchRestaurants record_cb w = (w', [(Some e, None)]) \<longrightarrow>
        fetchRestaurantById tn ident record_cb w = (w', [(Some e, None)])
        \<and> e \<noteq> Message ''Restaurant does not exist'')"
proof (intro conjI impI allI)
  fix k
  assume a: "fetchRestaurants record_cb w = (w', [(None, Some rs)])"
    and k: "k < length rs \<and> loose_eq tn (id' (rs ! k)) ident
             \<and> (\<forall>j. j < k \<longrightarrow> \<not> loose_eq tn (id' (rs ! j)) ident)"
  then have "find (\<lambda>r. loose_eq tn (id' r) ident) rs = Some (rs ! k)"
    unfolding find_Some_iff by blast
  then show "fetchRestaurantById tn ident record_cb w = (w', [(None, Some (rs ! k))])"
    unfolding fetchRestaurantById_def query_fulfilled [OF a] by (simp add: record_cb_def)
next
  assume a: "fetchRestaurants record_cb w = (w', [(None, Some rs)])"
    and k: "\<forall>k. k < length rs \<longrightarrow> \<not> loose_eq tn (id' (rs ! k)) ident"
  then have "find (\<lambda>r. loose_eq tn (id' r) ident) rs = None"
    unfolding find_None_iff by (auto simp: in_set_conv_nth)
  then show "fetchRestaurantById tn ident record_cb w
             = (w', [(Some (Message ''Restaurant does not exist''), None)])"
    unfolding fetchRestaurantById_def query_fulfilled [OF a] by (simp add: record_cb_def)
next
  assume a: "fetchRestaurants record_cb w = (w', [(Some e, None)])"
  show "fetchRestaurantById tn ident record_cb w = (w', [(Some e, None)])"
    unfolding fetchRestaurantById_def query_rejected [OF a] by (rule refl)
  from fetchRestaurants_rejected_error [OF a]
  show "e \<noteq> Message ''Restaurant does not exist''" by auto
qed

theorem byId_lookup_witness:
  "\<forall>tn.
     snd (fetchRestaurantById tn (JNum 2) record_cb example_world)
       = [(None, Some (example_restaurant 2 ''Brooklyn'' ''Pizza''))]
     \<and> snd (fetchRestaurantById tn (JNum 9) record_cb example_world)
       = [(Some (Message ''Restaurant does not exist''), None)]
     \<and> snd (fetchRestaurantById tn (JNum 2) record_cb (example_world\<lparr>serviceWorker := False\<rparr>))
       = [(Some (TypeError ''length''), None)]"
proof
  fix tn
  let ?w1 = "fst (fetchRestaurants record_cb example_world)"
  have hit: "1 < length example_restaurants \<and> loose_eq tn (id' (example_restaurants ! 1)) (JNum 2)
             \<and> (\<forall>j. j < 1 \<longrightarrow> \<not> loose_eq tn (id' (example_restaurants ! j)) (JNum 2))"
    by (simp add: example_restaurants_def example_restaurant_def strict_eq_def)
  have miss: "\<forall>k. k < length example_restaurants \<longrightarrow>
                \<not> loose_eq tn (id' (example_restaurants ! k)) (JNum 9)"
    by (simp add: example_restaurants_def example_restaurant_def strict_eq_def nth_Cons'
          less_Suc_eq)
  have rej: "fetchRestaurants record_cb (example_world\<lparr>serviceWorker := False\<rparr>)
               = (example_world\<lparr>serviceWorker := False\<rparr>, [(Some (TypeError ''length''), None)])"
    by (simp add: fetchRestaurants_def fetchCachedRestaurants_def openIDBConnection_def
          on_rejected_def record_cb_def)
  have a: "fetchRestaurantById tn (JNum 2) record_cb example_world
             = (?w1, [(None, Some (example_restaurants ! 1))])"
    using byId_lookup [where tn = tn and w = example_world and w' = ?w1
                          and rs = example_restaurants and ident = "JNum 2"] example_fetch hit
    by blast
  have b: "fetchRestaurantById tn (JNum 9) record_cb example_world
             = (?w1, [(Some (Message ''Restaurant does not exist''), None)])"
    using byId_lookup [where tn = tn and w = example_world and w' = ?w1
                          and rs = example_restaurants and ident = "JNum 9"] example_fetch miss
    by blast
  have c: "fetchRestaurantById tn (JNum 2) record_cb (example_world\<lparr>serviceWorker := False\<rparr>)
             = (example_world\<lparr>serviceWorker := False\<rparr>, [(Some (TypeError ''length''), None)])"
    using byId_lookup [where tn = tn and w = "example_world\<lparr>serviceWorker := False\<rparr>"
                          and w' = "example_world\<lparr>serviceWorker := False\<rparr>"
                          and ident = "JNum 2" and e = "TypeError ''length''"] rej
    by blast
  from a b c
  show "snd (fetchRestaurantById tn (JNum 2) record_cb example_world)
       = [(None, Some (example_restaurant 2 ''Brooklyn'' ''Pizza''))]
     \<and> snd (fetchRestaurantById tn (JNum 9) record_cb example_world)
       = [(Some (Message ''Restaurant does not exist''), None)]
     \<and> snd (fetchRestaurantById tn (JNum 2) record_cb (example_world\<lparr>serviceWorker := False\<rparr>))
       = [(Some (TypeError ''length''), None)]"
    by (simp add: example_restaurants_def)
qed

section \<open>Distinct field values\<close>

lemma indexOf_from_notin: "v \<notin> set ps \<Longrightarrow> indexOf_from i (ps @ xs) v = indexOf_from (i + int (length ps)) xs v"
proof (induction ps arbitrary: i)
  case Nil
  then show ?case by simp
next
  case (Cons p ps)
  then have "v \<notin> set ps" "p \<noteq> v" by auto
  from Cons.IH [OF this(1), of "i + 1"] this(2) show ?case
    by (simp add: strict_eq_def ac_simps)
qed

lemma indexOf_from_bound: "v \<in> set ps \<Longrightarrow> i \<le> indexOf_from i (ps @ xs) v \<and> indexOf_from i (ps @ xs) v < i + int (length ps)"
proof (induction ps arbitrary: i)
  case Nil
  then show ?case by simp
next
  case (Cons p ps)
  show ?case
  proof (cases "p = v")
    case True
    then show ?thesis by (simp add: strict_eq_def)
  next
    case False
    with Cons.prems have "v \<in> set ps" by simp
    from Cons.IH [OF this, of "i + 1"] False show ?thesis
      by (simp add: strict_eq_def)
  qed
qed

lemma indexOf_first: "(indexOf (ps @ x # xs) x = int (length ps)) = (x \<notin> set ps)"
proof (cases "x \<in> set ps")
  case True
  from indexOf_from_bound [OF True, of 0 "x # xs"] True show ?thesis
    by (simp add: indexOf_def)
next
  case False
  then show ?thesis
    by (simp add: indexOf_def indexOf_from_notin strict_eq_def)
qed

lemma first_seen_cong: "set seen = set seen' \<Longrightarrow> first_seen seen xs = first_seen seen' xs"
proof (induction xs arbitrary: seen seen')
  case Nil
  then show ?case by simp
next
  case (Cons x xs)
  have a: "first_seen seen xs = first_seen seen' xs"
    using Cons.prems by (rule Cons.IH)
  have b: "first_seen (x # seen) xs = first_seen (x # seen') xs"
    by (rule Cons.IH) (simp add: Cons.prems)
  show ?case
    using Cons.prems by (simp add: a b)
qed

lemma unique_values_from:
  "map snd (filter (\<lambda>(i, v). indexOf (ps @ xs) v = int i) (enumerate (length ps) xs)) = first_seen ps xs"
proof (induction xs arbitrary: ps)
  case Nil
  then show ?case by simp
next
  case (Cons x xs)
  have tl: "map snd (filter (\<lambda>(i, v). indexOf (ps @ x # xs) v = int i) (enumerate (Suc (length ps)) xs))
            = first_seen (ps @ [x]) xs"
    using Cons.IH [of "ps @ [x]"] by simp
  show ?case
  proof (cases "x \<in> set ps")
    case True
    then have "first_seen (ps @ [x]) xs = first_seen ps xs"
      by (intro first_seen_cong) auto
    with True tl show ?thesis by (simp add: indexOf_first)
  next
    case False
    have "first_seen (ps @ [x]) xs = first_seen (x # ps) xs"
      by (intro first_seen_cong) auto
    with False tl show ?thesis by (simp add: indexOf_first)
  qed
qed

lemma unique_values_first_seen: "unique_values tn xs = first_seen [] xs"
  using unique_values_from [of "[]" xs] by (simp add: unique_values_def strict_eq_def)

lemma set_first_seen: "set (first_seen seen xs) = set xs - set seen"
  by (induction xs arbitrary: seen) auto

lemma distinct_first_seen: "distinct (first_seen seen xs)"
  by (induction xs arbitrary: seen) (auto simp: set_first_seen)

lemma fetchNeighborhoods_data:
  assumes "fetchRestaurants record_cb w = (w', [(None, Some rs)])"
  shows "fetchNeighborhoods tn record_cb w = (w', [(None, Some (distinctValuesOf neighborhood rs))])"
  unfolding fetchNeighborhoods_def fetchRestaurants_fulfilled [OF assms]
  by (simp add: with_restaurants_fulfilled record_cb_def field_values_map unique_values_first_seen distinctValuesOf_def)

lemma indexOf_ge: "v \<notin> set ps \<Longrightarrow> v \<in> set xs \<Longrightarrow> int (length ps) \<le> indexOf (ps @ xs) v"
proof -
  assume a: "v \<notin> set ps" and b: "v \<in> set xs"
  from indexOf_from_bound [OF b, of "int (length ps)" "[]"] a
  show ?thesis by (simp add: indexOf_def indexOf_from_notin)
qed

lemma first_seen_order:
  "sorted_wrt (<) (map (indexOf (ps @ xs)) (first_seen ps xs))"
proof (induction xs arbitrary: ps)
  case Nil
  then show ?case by simp
next
  case (Cons x xs)
  have tl: "sorted_wrt (<) (map (indexOf (ps @ x # xs)) (first_seen (ps @ [x]) xs))"
    using Cons.IH [of "ps @ [x]"] by simp
  show ?case
  proof (cases "x \<in> set ps")
    case True
    then have "first_seen (ps @ [x]) xs = first_seen ps xs"
      by (intro first_seen_cong) auto
    with True tl show ?thesis by simp
  next
    case False
    have eq: "first_seen (ps @ [x]) xs = first_seen (x # ps) xs"
      by (intro first_seen_cong) auto
    have hd: "indexOf (ps @ x # xs) x = int (length ps)"
      using False by (simp add: indexOf_first)
    have later: "int (length ps) < indexOf (ps @ x # xs) y" if "y \<in> set (first_seen (x # ps) xs)" for y
    proof -
      from that have "y \<notin> set (ps @ [x])" "y \<in> set xs"
        by (auto simp: set_first_seen)
      from indexOf_ge [OF this] show ?thesis by simp
    qed
    from False tl eq hd later show ?thesis by simp
  qed
qed

lemma fetchCuisines_data:
  assumes "fetchRestaurants record_cb w = (w', [(None, Some rs)])"
  shows "fetchCuisines tn record_cb w = (w', [(None, Some (distinctValuesOf cuisine_type rs))])"
  unfolding fetchCuisines_def fetchRestaurants_fulfilled [OF assms]
  by (simp add: with_restaurants_fulfilled record_cb_def field_values_map unique_values_first_seen distinctValuesOf_def)

text \<open>
  C6. \<^verbatim>\<open>fetchNeighborhoods\<close> and \<^verbatim>\<open>fetchCuisines\<close> call back with each distinct value of
  the field once, in the order of first appearance and not sorted: the filter on
  \<^verbatim>\<open>indexOf\<close> is \<open>first_seen\<close>, its result has no duplicates, holds exactly the values of the
  input, and lists them by ascending first index; \<^verbatim>\<open>[A,B,A,C,B]\<close> gives \<^verbatim>\<open>[A,B,C]\<close>.
\<close>

theorem stable_deduplication:
  "unique_values tn xs = first_seen [] xs
   \<and> distinct (unique_values tn xs)
   \<and> set (unique_values tn xs) = set xs
   \<and> sorted_wrt (<) (map (indexOf xs) (unique_values tn xs))
   \<and> (a \<noteq> b \<and> a \<noteq> c \<and> b \<noteq> c \<longrightarrow> unique_values tn [a, b, a, c, b] = [a, b, c])
   \<and> (fetchRestaurants record_cb w = (w', [(None, Some rs)]) \<longrightarrow>
        fetchNeighborhoods tn record_cb w = (w', [(None, Some (distinctValuesOf neighborhood rs))])
        \<and> fetchCuisines tn record_cb w = (w', [(None, Some (distinctValuesOf cuisine_type rs))])
        \<and> distinctValuesOf neighborhood rs = unique_values tn (map neighborhood rs)
        \<and> distinctValuesOf cuisine_type rs = unique_values tn (map cuisine_type rs))"
proof -
  have 1: "unique_values tn xs = first_seen [] xs"
    by (rule unique_values_first_seen)
  have 2: "distinct (unique_values tn xs)"
    by (simp add: unique_values_first_seen distinct_first_seen)
  have 3: "set (unique_values tn xs) = set xs"
    by (simp add: unique_values_first_seen set_first_seen)
  have 4: "sorted_wrt (<) (map (indexOf xs) (unique_values tn xs))"
    using first_seen_order [of "[]" xs] by (simp add: unique_values_first_seen)
  have 5: "unique_values tn [a, b, a, c, b] = [a, b, c]" if "a \<noteq> b \<and> a \<noteq> c \<and> b \<noteq> c"
    using that by (auto simp: unique_values_first_seen)
  have 6: "fetchNeighborhoods tn record_cb w = (w', [(None, Some (distinctValuesOf neighborhood rs))])
        \<and> fetchCuisines tn record_cb w = (w', [(None, Some (distinctValuesOf cuisine_type rs))])
        \<and> distinctValuesOf neighborhood rs = unique_values tn (map neighborhood rs)
        \<and> distinctValuesOf cuisine_type rs = unique_values tn (map cuisine_type rs)"
    if "fetchRestaurants record_cb w = (w', [(None, Some rs)])"
    using fetchNeighborhoods_data [OF that] fetchCuisines_data [OF that]
    by (simp add: distinctValuesOf_def unique_values_first_seen)
  from 1 2 3 4 5 6 show ?thesis by blast
qed

theorem stable_deduplication_witness:
  "\<forall>tn.
     unique_values tn [JStr ''A'', JStr ''B'', JStr ''A'', JStr ''C'', JStr ''B'']
       = [JStr ''A'', JStr ''B'', JStr ''C'']
     \<and> snd (fetchNeighborhoods tn record_cb example_world)
       = [(None, Some [JStr ''Manhattan'', JStr ''Brooklyn'', JStr ''Queens''])]
     \<and> snd (fetchCuisines tn record_cb example_world)
       = [(None, Some [JStr ''Asian'', JStr ''Pizza'', JStr ''Mexican''])]"
proof
  fix tn
  have nb: "first_seen [] (map neighborhood example_restaurants)
              = [JStr ''Manhattan'', JStr ''Brooklyn'', JStr ''Queens'']"
    by (simp add: example_restaurants_def example_restaurant_def)
  have cu: "first_seen [] (map cuisine_type example_restaurants)
              = [JStr ''Asian'', JStr ''Pizza'', JStr ''Mexican'']"
    by (simp add: example_restaurants_def example_restaurant_def)
  from stable_deduplication
         [where tn = tn and a = "JStr ''A''" and b = "JStr ''B''" and c = "JStr ''C''"
            and w = example_world
            and w' = "fst (fetchRestaurants record_cb example_world)" and rs = example_restaurants]
       example_fetch nb cu
  show "unique_values tn [JStr ''A'', JStr ''B'', JStr ''A'', JStr ''C'', JStr ''B'']
       = [JStr ''A'', JStr ''B'', JStr ''C'']
     \<and> snd (fetchNeighborhoods tn record_cb example_world)
       = [(None, Some [JStr ''Manhattan'', JStr ''Brooklyn'', JStr ''Queens''])]
     \<and> snd (fetchCuisines tn record_cb example_world)
       = [(None, Some [JStr ''Asian'', JStr ''Pizza'', JStr ''Mexican''])]"
    by (simp add: distinctValuesOf_def)
qed

section \<open>Loose equality of ids\<close>

text \<open>
  C10. \<^verbatim>\<open>fetchRestaurantById\<close> compares with \<^verbatim>\<open>==\<close>. Asked for a string that converts to
  the numeric id of a record of the list, it calls back with a record whose id equals the
  string by \<^verbatim>\<open>==\<close>, and not with the error of a missing restaurant, although no numeric id is
  strictly equal to a string; it calls back with that very record when the ids of the list are
  numbers without duplicates. This holds for every string that the engine converts to the id,
  however it is written. And whatever the engine, a string of decimal digits with a value up
  to \<open>2^53\<close> converts to that value: \<^verbatim>\<open>"3"\<close> finds the record with id \<^verbatim>\<open>3\<close>.
\<close>

theorem loose_id_matching:
  "(fetchRestaurants record_cb w = (w', [(None, Some rs)]) \<and> r \<in> set rs \<and> id' r = JNum n
      \<and> StringToNumber tn s = Some n \<longrightarrow>
        (\<exists>r'. fetchRestaurantById tn (JStr s) record_cb w = (w', [(None, Some r')])
              \<and> r' \<in> set rs \<and> loose_eq tn (id' r') (JStr s))
        \<and> \<not> strict_eq (id' r) (JStr s)
        \<and> ((\<forall>x \<in> set rs. \<exists>m. id' x = JNum m) \<and> distinct (map id' rs) \<longrightarrow>
              fetchRestaurantById tn (JStr s) record_cb w = (w', [(None, Some r)])))
   \<and> (digits_value s = Some v \<and> v \<le> 2 ^ 53 \<longrightarrow> StringToNumber tn s = Some (int v))"
proof (intro conjI impI)
  assume h: "fetchRestaurants record_cb w = (w', [(None, Some rs)]) \<and> r \<in> set rs
      \<and> id' r = JNum n \<and> StringToNumber tn s = Some n"
  let ?P = "\<lambda>r. loose_eq tn (id' r) (JStr s)"
  from h have first: "fetchRestaurants record_cb w = (w', [(None, Some rs)])"
    and r: "r \<in> set rs" "id' r = JNum n" and conv: "StringToNumber tn s = Some n"
    by simp_all
  from r conv have "?P r" by simp
  with r(1) have "find ?P rs \<noteq> None"
    by (auto simp: find_None_iff)
  then obtain r' where f: "find ?P rs = Some r'" by auto
  then have r': "r' \<in> set rs" "?P r'"
    by (auto simp: find_Some_iff)
  have res: "fetchRestaurantById tn (JStr s) record_cb w = (w', [(None, Some r')])"
    unfolding fetchRestaurantById_def query_fulfilled [OF first]
    by (simp add: f record_cb_def)
  from res r' show "\<exists>r'. fetchRestaurantById tn (JStr s) record_cb w = (w', [(None, Some r')])
              \<and> r' \<in> set rs \<and> loose_eq tn (id' r') (JStr s)"
    by blast
  from r(2) show "\<not> strict_eq (id' r) (JStr s)"
    by (simp add: strict_eq_def)
  assume "(\<forall>x \<in> set rs. \<exists>m. id' x = JNum m) \<and> distinct (map id' rs)"
  then have nums: "\<forall>x \<in> set rs. \<exists>m. id' x = JNum m" and d: "distinct (map id' rs)"
    by simp_all
  from nums r'(1) obtain m where m: "id' r' = JNum m" by blast
  with r'(2) conv have "m = n" by simp
  with m r(2) have "id' r' = id' r" by simp
  with d r'(1) r(1) have "r' = r"
    by (meson distinct_map inj_onD)
  with res show "fetchRestaurantById tn (JStr s) record_cb w = (w', [(None, Some r)])"
    by simp
next
  assume "digits_value s = Some v \<and> v \<le> 2 ^ 53"
  then show "StringToNumber tn s = Some (int v)"
    by (simp add: StringToNumber_digits)
qed

theorem loose_id_matching_witness:
  "\<forall>tn.
     StringToNumber tn ''3'' = Some 3
     \<and> loose_eq tn (JNum 3) (JStr ''3'')
     \<and> \<not> strict_eq (JNum 3) (JStr ''3'')
     \<and> snd (fetchRestaurantById tn (JStr ''3'') record_cb example_world)
       = [(None, Some (example_restaurant 3 ''Manhattan'' ''Asian''))]"
proof
  fix tn
  let ?r = "example_restaurant 3 ''Manhattan'' ''Asian''"
  let ?w1 = "fst (fetchRestaurants record_cb example_world)"
  have dv: "digits_value ''3'' = Some 3 \<and> (3 :: nat) \<le> 2 ^ 53"
    by (simp add: digits_value_def digitValue_def)
  have s: "StringToNumber tn ''3'' = Some 3"
    using loose_id_matching [where tn = tn and s = "''3''" and v = 3] dv by simp
  have m: "?r \<in> set example_restaurants"
    by (simp add: example_restaurants_def)
  have i: "id' ?r = JNum 3"
    by (simp add: example_restaurant_def)
  have n: "\<forall>x \<in> set example_restaurants. \<exists>m. id' x = JNum m"
    by (simp add: example_restaurants_def example_restaurant_def)
  have d: "distinct (map id' example_restaurants)"
    by (simp add: example_restaurants_def example_restaurant_def)
  have "fetchRestaurantById tn (JStr ''3'') record_cb example_world = (?w1, [(None, Some ?r)])"
    using loose_id_matching [where tn = tn and s = "''3''" and w = example_world and w' = ?w1
                               and rs = example_restaurants and r = ?r and n = 3]
          example_fetch m i n d s
    by blast
  with s show "StringToNumber tn ''3'' = Some 3
     \<and> loose_eq tn (JNum 3) (JStr ''3'')
     \<and> \<not> strict_eq (JNum 3) (JStr ''3'')
     \<and> snd (fetchRestaurantById tn (JStr ''3'') record_cb example_world)
       = [(None, Some (example_restaurant 3 ''Manhattan'' ''Asian''))]"
    by (simp add: strict_eq_def)
qed

section \<open>The two-channel callback\<close>









section \<open>Without a database handle\<close>

text \<open>
  C4 says that \<^verbatim>\<open>fetchRestaurants\<close> still returns the server's data when
  \<^verbatim>\<open>openIDBConnection\<close> yields no handle. The code does otherwise: without a service worker
  \<^verbatim>\<open>fetchCachedRestaurants\<close> resolves with \<^verbatim>\<open>undefined\<close>, reading its \<^verbatim>\<open>length\<close> throws,
  and the callback gets that \<^verbatim>\<open>TypeError\<close> and no data; the world is unchanged, so no
  request is sent.
\<close>

theorem degraded_mode_rejects:
  "\<not> serviceWorker w \<Longrightarrow>
   openIDBConnection w = None
   \<and> fetchRestaurants record_cb w = (w, [(Some (TypeError ''length''), None)])"
  by (simp add: fetchRestaurants_def fetchCachedRestaurants_def openIDBConnection_def
        on_rejected_def record_cb_def)

theorem degraded_mode_rejects_witness:
  "restaurants_endpoint (example_world\<lparr>serviceWorker := False\<rparr>) = Json True example_restaurants
   \<and> fetchRestaurants record_cb (example_world\<lparr>serviceWorker := False\<rparr>)
       = (example_world\<lparr>serviceWorker := False\<rparr>, [(Some (TypeError ''length''), None)])
   \<and> requests (fst (fetchRestaurants record_cb (example_world\<lparr>serviceWorker := False\<rparr>))) = []"
  using degraded_mode_rejects [of "example_world\<lparr>serviceWorker := False\<rparr>"]
  by (simp add: example_world_def)

section \<open>Submitting a review\<close>

lemma resolve_port: "resolve_identifier w ''port'' = (case globals w ''port'' of Some v \<Rightarrow> Inr v | None \<Rightarrow> Inl (ReferenceError ''port''))"
  by (simp add: resolve_identifier_def module_constants_def)

lemma resolve_PORT: "resolve_identifier w ''PORT'' = Inr (JNum 1337)"
  by (simp add: resolve_identifier_def module_constants_def)

text \<open>
  C2 says that a review submitted while the request fails is stamped and stored in the offline
  store. The code does otherwise where the global object has no \<^verbatim>\<open>port\<close>: the module binds
  \<^verbatim>\<open>PORT\<close>, the URL of \<^verbatim>\<open>addReview\<close> reads \<^verbatim>\<open>port\<close>, and \<^verbatim>\<open>addReview\<close> throws a
  \<^verbatim>\<open>ReferenceError\<close> before any request is made and before its \<^verbatim>\<open>catch\<close> exists, so nothing
  is stamped or stored.
\<close>

theorem addReview_offline_throws:
  "globals w ''port'' = None \<Longrightarrow> create_review_endpoint w data = NetworkFailure \<Longrightarrow>
   addReview data cb w = Inl (ReferenceError ''port'')"
  by (simp add: addReview_def resolve_port)

theorem addReview_offline_throws_witness:
  "addReview example_review record_cb (example_world\<lparr>create_review_endpoint := (\<lambda>d. NetworkFailure)\<rparr>)
     = Inl (ReferenceError ''port'')"
  using addReview_offline_throws
          [of "example_world\<lparr>create_review_endpoint := (\<lambda>d. NetworkFailure)\<rparr>" example_review record_cb]
  by (simp add: example_world_def)

text \<open>
  C3 says that a review submitted while the request succeeds is written, as the server returns
  it, into the reviews store. The code does otherwise where the global object has no
  \<^verbatim>\<open>port\<close>: \<^verbatim>\<open>addReview\<close> throws the same \<^verbatim>\<open>ReferenceError\<close>, whatever the server would
  have answered, and nothing is written.
\<close>

theorem addReview_online_throws:
  "globals w ''port'' = None \<Longrightarrow> create_review_endpoint w data = Json ok created \<Longrightarrow>
   addReview data cb w = Inl (ReferenceError ''port'')"
  by (simp add: addReview_def resolve_port)

theorem addReview_online_throws_witness:
  "addReview example_review record_cb example_world = Inl (ReferenceError ''port'')"
  using addReview_online_throws
          [where w = example_world and data = example_review and ok = True
             and created = example_created and cb = record_cb]
  by (simp add: example_world_def)

section \<open>Object stores\<close>

lemma set_store_insert: "set (store_insert k v s) = insert (k, v) (set s)"
  by (induction s) (auto split: if_splits)

lemma mset_store_insert: "mset (store_insert k v s) = add_mset (k, v) (mset s)"
  by (induction s) auto

lemma length_store_insert: "length (store_insert k v s) = Suc (length s)"
  by (induction s) auto

lemma store_delete_absent: "k \<notin> fst ` set s \<Longrightarrow> store_delete k s = s"
  unfolding store_delete_def by (rule filter_True) force

lemma keys_store_delete: "fst ` set (store_delete k s) = fst ` set s - {k}"
  by (auto simp: store_delete_def image_iff)

lemma map_of_store_delete: "map_of (store_delete k s) = (map_of s)(k := None)"
  by (induction s) (auto simp: store_delete_def fun_upd_twist)

lemma map_of_store_insert: "k \<notin> fst ` set s \<Longrightarrow> map_of (store_insert k v s) = (map_of s)(k \<mapsto> v)"
  by (induction s) (auto simp: fun_upd_twist)

lemma map_of_store_put:
  "store_put k v s = Inr s' \<Longrightarrow> map_of s' = (map_of s)(k \<mapsto> v)"
  by (auto simp: store_put_def map_of_store_insert keys_store_delete map_of_store_delete
      split: if_splits)

lemma size_store_keys: "size (store_keys s) = length s"
  by (simp add: store_keys_def)

lemma store_keys_insert: "store_keys (store_insert k v s) = add_mset k (store_keys s)"
  by (induction s) (auto simp: store_keys_def)

lemma count_keys_store_delete:
  "count (store_keys (store_delete k s)) k' = (if k' = k then 0 else count (store_keys s) k')"
  by (induction s) (auto simp: store_delete_def store_keys_def)

lemma count_keys_store_put:
  "store_put k v s = Inr s' \<Longrightarrow>
   count (store_keys s') k' = (if k' = k then 1 else count (store_keys s) k')"
  by (auto simp: store_put_def store_keys_insert count_keys_store_delete split: if_splits)

lemma store_put_Inl: "store_put k v s = Inl e \<Longrightarrow> \<not> valid_key k"
  by (simp add: store_put_def split: if_splits)

lemma store_put_Inr: "store_put k v s = Inr s' \<Longrightarrow> valid_key k"
  by (simp add: store_put_def split: if_splits)

lemma put_each_keys:
  "count (store_keys (put_each rs s)) k
     = (if k \<in> id' ` set (filter (\<lambda>r. valid_key (id' r)) rs) then 1 else count (store_keys s) k)"
proof (induction rs arbitrary: s)
  case Nil
  then show ?case by simp
next
  case (Cons r rs)
  show ?case
  proof (cases "store_put (id' r) r s")
    case (Inl e)
    with store_put_Inl [OF Inl] show ?thesis by (simp add: Cons.IH)
  next
    case (Inr s')
    with store_put_Inr [OF Inr] show ?thesis
      by (simp add: Cons.IH count_keys_store_put [OF Inr])
  qed
qed

lemma map_add_twice: "(m ++ g) ++ g = m ++ g"
  by (rule ext) (simp add: map_add_def split: option.split)

lemma put_each_map_of:
  "map_of (put_each rs s)
     = map_of s ++ map_of (rev (map (\<lambda>r. (id' r, r)) (filter (\<lambda>r. valid_key (id' r)) rs)))"
proof (induction rs arbitrary: s)
  case Nil
  then show ?case by simp
next
  case (Cons r rs)
  show ?case
  proof (cases "store_put (id' r) r s")
    case (Inl e)
    with store_put_Inl [OF Inl] show ?thesis by (simp add: Cons.IH)
  next
    case (Inr s')
    let ?g = "map_of (rev (map (\<lambda>r. (id' r, r)) (filter (\<lambda>r. valid_key (id' r)) rs)))"
    have "map_of (put_each (r # rs) s) = map_of (put_each rs s')"
      using Inr by simp
    also have "\<dots> = map_of s' ++ ?g"
      by (rule Cons.IH)
    also have "map_of s' = (map_of s)(id' r \<mapsto> r)"
      by (rule map_of_store_put [OF Inr])
    also have "(map_of s)(id' r \<mapsto> r) ++ ?g = (map_of s ++ [id' r \<mapsto> r]) ++ ?g"
      by (simp only: map_add_upd map_add_empty)
    also have "\<dots> = map_of s ++ ([id' r \<mapsto> r] ++ ?g)"
      by (simp only: map_add_assoc)
    also have "[id' r \<mapsto> r] ++ ?g
        = map_of (rev (map (\<lambda>r. (id' r, r)) (filter (\<lambda>r. valid_key (id' r)) (r # rs))))"
      using store_put_Inr [OF Inr] by (simp add: map_of_append del: map_add_upd map_add_upd_left)
    finally show ?thesis .
  qed
qed

lemma put_each_twice_keys: "store_keys (put_each rs (put_each rs s)) = store_keys (put_each rs s)"
  by (rule multiset_eqI) (simp add: put_each_keys)

lemma put_each_twice_map_of: "map_of (put_each rs (put_each rs s)) = map_of (put_each rs s)"
  by (simp add: put_each_map_of [of rs "put_each rs s"] put_each_map_of [of rs s] map_add_twice)

lemma put_each_twice_length: "length (put_each rs (put_each rs s)) = length (put_each rs s)"
  using put_each_twice_keys [of rs s] by (metis size_store_keys)

lemma store_delete_insert: "store_delete k (store_insert k v s) = store_delete k s"
  by (induction s) (auto simp: store_delete_def split: if_splits)

lemma store_delete_twice: "store_delete k (store_delete k s) = store_delete k s"
  by (simp add: store_delete_def)

lemma store_put_twice: "store_put k v s = Inr s' \<Longrightarrow> store_put k v s' = Inr s'"
  by (auto simp: store_put_def store_delete_insert store_delete_twice split: if_splits)

lemma saveToIDB_restaurants:
  "restaurantObject (database (saveToIDB (Restaurants rs) IDB_OBJECT w))
     = (if serviceWorker w then put_each rs (restaurantObject (database w))
        else restaurantObject (database w))"
  by (simp add: saveToIDB_def openIDBConnection_def IDB_OBJECT_def IDB_REVIEWS_OBJECT_def
        IDB_REVIEWS_OBJECT_OFFLINE_def)

lemma saveToIDB_serviceWorker:
  "serviceWorker (saveToIDB data st w) = serviceWorker w"
  by (simp add: saveToIDB_def openIDBConnection_def
      split: option.splits save_data.splits sum.splits)

lemma key_less_irrefl: "\<not> key_less k k"
  by (cases k) auto

lemma key_less_asym: "key_less a b \<Longrightarrow> \<not> key_less b a"
  by (cases a; cases b) auto

lemma store_insert_last: "\<forall>p \<in> set s. \<not> key_less k (fst p) \<Longrightarrow> store_insert k v s = s @ [(k, v)]"
  by (induction s) auto

lemma put_each_fresh:
  "\<forall>r \<in> set rs. valid_key (id' r) \<Longrightarrow> distinct (map id' rs) \<Longrightarrow>
   id' ` set rs \<inter> fst ` set s = {} \<Longrightarrow>
   mset (put_each rs s) = mset (map (\<lambda>r. (id' r, r)) rs) + mset s"
proof (induction rs arbitrary: s)
  case Nil
  then show ?case by simp
next
  case (Cons r rs)
  let ?s' = "store_insert (id' r) r s"
  from Cons.prems have fresh: "id' r \<notin> fst ` set s" by auto
  then have put: "store_put (id' r) r s = Inr ?s'"
    using Cons.prems(1) by (simp add: store_put_def store_delete_absent)
  have "id' ` set rs \<inter> fst ` set ?s' = {}"
    using Cons.prems(2,3) by (auto simp: set_store_insert)
  with Cons.prems have "mset (put_each rs ?s') = mset (map (\<lambda>r. (id' r, r)) rs) + mset ?s'"
    by (intro Cons.IH) auto
  with put show ?case by (simp add: mset_store_insert)
qed

lemma put_each_ascending:
  "\<forall>r \<in> set rs. valid_key (id' r) \<Longrightarrow> sorted_wrt key_less (map fst s @ map id' rs) \<Longrightarrow>
   put_each rs s = s @ map (\<lambda>r. (id' r, r)) rs"
proof (induction rs arbitrary: s)
  case Nil
  then show ?case by simp
next
  case (Cons r rs)
  from Cons.prems(2) have below: "\<forall>p \<in> set s. key_less (fst p) (id' r)"
    by (auto simp: sorted_wrt_append)
  then have "id' r \<notin> fst ` set s"
    using key_less_irrefl by force
  moreover from below have "\<forall>p \<in> set s. \<not> key_less (id' r) (fst p)"
    using key_less_asym by blast
  ultimately have put: "store_put (id' r) r s = Inr (s @ [(id' r, r)])"
    using Cons.prems(1) by (simp add: store_put_def store_delete_absent store_insert_last)
  have "sorted_wrt key_less (map fst (s @ [(id' r, r)]) @ map id' rs)"
    using Cons.prems(2) by simp
  with Cons.prems(1) have "put_each rs (s @ [(id' r, r)]) = (s @ [(id' r, r)]) @ map (\<lambda>r. (id' r, r)) rs"
    by (intro Cons.IH) auto
  with put show ?case by simp
qed

section \<open>Backfilling twice\<close>

text \<open>
  C8. Saving the same restaurants twice through the default branch of \<^verbatim>\<open>saveToIDB\<close> leaves
  the number of records of the store as it was after the first save, and the record stored
  under each key the same: a record put again replaces itself.
\<close>

theorem backfill_idempotent:
  "length (restaurantObject (database
       (saveToIDB (Restaurants rs) IDB_OBJECT (saveToIDB (Restaurants rs) IDB_OBJECT w))))
     = length (restaurantObject (database (saveToIDB (Restaurants rs) IDB_OBJECT w)))
   \<and> map_of (restaurantObject (database
       (saveToIDB (Restaurants rs) IDB_OBJECT (saveToIDB (Restaurants rs) IDB_OBJECT w))))
     = map_of (restaurantObject (database (saveToIDB (Restaurants rs) IDB_OBJECT w)))
   \<and> put_each [r] (put_each [r] s) = put_each [r] s"
proof -
  have "put_each [r] (put_each [r] s) = put_each [r] s"
    by (cases "store_put (id' r) r s") (simp_all add: store_put_twice)
  then show ?thesis
    by (simp add: saveToIDB_restaurants saveToIDB_serviceWorker put_each_twice_length
        put_each_twice_map_of)
qed

theorem backfill_idempotent_witness:
  "length (restaurantObject (database
       (saveToIDB (Restaurants example_restaurants) IDB_OBJECT
          (saveToIDB (Restaurants example_restaurants) IDB_OBJECT example_world)))) = 5
   \<and> length (restaurantObject (database
       (saveToIDB (Restaurants example_restaurants) IDB_OBJECT example_world))) = 5"
proof -
  have "restaurantObject (database (saveToIDB (Restaurants example_restaurants) IDB_OBJECT example_world))
          = map (\<lambda>r. (id' r, r)) example_restaurants"
    by (simp add: saveToIDB_restaurants example_world_def empty_idb_def example_restaurants_def
          example_restaurant_def store_put_def store_delete_def)
  with backfill_idempotent [of example_restaurants example_world]
  show ?thesis by (simp add: example_restaurants_def)
qed

section \<open>Reading through the cache\<close>

lemma fetchRestaurants_hit:
  "serviceWorker w \<Longrightarrow> restaurantObject (database w) \<noteq> [] \<Longrightarrow>
   fetchRestaurants record_cb w = (w, [(None, Some (store_getAll (restaurantObject (database w))))])"
  by (simp add: fetchRestaurants_def fetchCachedRestaurants_def openIDBConnection_def
        store_getAll_def on_fulfilled_def record_cb_def)

lemma fetchReviews_hit:
  "serviceWorker w \<Longrightarrow> index_getAll restaurant_id (reviewsObject (database w)) ident \<noteq> [] \<Longrightarrow>
   fetchReviews ident record_cb w
     = (w, [(None, Some (index_getAll restaurant_id (reviewsObject (database w)) ident))])"
  by (simp add: fetchReviews_def fetchCachedReviews_def openIDBConnection_def
        on_fulfilled_def record_cb_def)

lemma fetchRestaurants_success:
  assumes "fetchRestaurants record_cb w = (w1, [(None, Some rs)])"
  shows "serviceWorker w \<and>
         (restaurantObject (database w) \<noteq> [] \<and> w1 = w
            \<and> rs = store_getAll (restaurantObject (database w))
          \<or> restaurantObject (database w) = [] \<and> parsed (restaurants_endpoint w)
            \<and> w1 = saveToIDB (Restaurants rs) IDB_OBJECT (w\<lparr>requests := requests w @ [GetRestaurants]\<rparr>))"
  using assms
  by (auto simp: fetchRestaurants_def fetchCachedRestaurants_def openIDBConnection_def
        store_getAll_def fetchRestaurantsFromAPI_def on_fulfilled_def on_rejected_def
        record_cb_def Let_def
      split: if_splits response.splits)

lemma second_fetchRestaurants:
  assumes first: "fetchRestaurants record_cb w = (w1, [(None, Some rs)])"
    and ne: "rs \<noteq> []"
    and valid: "\<forall>r \<in> set rs. valid_key (id' r)"
    and dist: "distinct (map id' rs)"
  shows "\<exists>rs2. fetchRestaurants record_cb w1 = (w1, [(None, Some rs2)]) \<and> mset rs2 = mset rs
           \<and> (sorted_wrt key_less (map id' rs) \<longrightarrow> rs2 = rs)"
proof -
  from fetchRestaurants_success [OF first] have sw: "serviceWorker w" by simp
  from fetchRestaurants_success [OF first] consider
      (hit) "restaurantObject (database w) \<noteq> []" "w1 = w"
            "rs = store_getAll (restaurantObject (database w))"
    | (miss) "restaurantObject (database w) = []"
            "w1 = saveToIDB (Restaurants rs) IDB_OBJECT (w\<lparr>requests := requests w @ [GetRestaurants]\<rparr>)"
    by blast
  then show ?thesis
  proof cases
    case hit
    with fetchRestaurants_hit [OF sw hit(1)] show ?thesis by simp
  next
    case miss
    have sw1: "serviceWorker w1"
      using sw by (simp add: miss(2) saveToIDB_serviceWorker)
    have store: "restaurantObject (database w1) = put_each rs []"
      using sw by (simp add: miss saveToIDB_restaurants)
    have m: "mset (put_each rs []) = mset (map (\<lambda>r. (id' r, r)) rs)"
      using put_each_fresh [OF valid dist, of "[]"] by simp
    with ne have "put_each rs [] \<noteq> []" by auto
    with store have ne1: "restaurantObject (database w1) \<noteq> []" by simp
    have a: "fetchRestaurants record_cb w1 = (w1, [(None, Some (map snd (put_each rs [])))])"
      using fetchRestaurants_hit [OF sw1 ne1] by (simp add: store store_getAll_def)
    have "mset (map snd (put_each rs [])) = image_mset snd (mset (put_each rs []))"
      by simp
    also have "\<dots> = mset rs"
      unfolding m by (simp add: image_mset.compositionality comp_def)
    finally have b: "mset (map snd (put_each rs [])) = mset rs" .
    have c: "map snd (put_each rs []) = rs" if "sorted_wrt key_less (map id' rs)"
      using put_each_ascending [OF valid, of "[]"] that by (simp add: comp_def)
    from a b c show ?thesis by blast
  qed
qed

text \<open>
  The index \<^verbatim>\<open>restaurant_id\<close> and the reviews saved one by one after a request.
\<close>

lemma mset_index_sorted_from:
  "mset (foldl (\<lambda>acc (ik, v). store_insert ik v acc) acc xs) = mset acc + mset xs"
  by (induction xs arbitrary: acc) (auto simp: mset_store_insert)

lemma mset_index_sorted: "mset (index_sorted f s) = mset (index_entries f s)"
  by (simp add: index_sorted_def mset_index_sorted_from)

lemma index_entries_under:
  "valid_key q \<Longrightarrow>
   map snd (filter (\<lambda>(ik, v). ik = q) (index_entries f s)) = filter (\<lambda>v. f v = q) (map snd s)"
  by (induction s) (auto simp: index_entries_def)

lemma mset_index_getAll:
  assumes "valid_key q"
  shows "mset (index_getAll f s q) = mset (filter (\<lambda>v. f v = q) (map snd s))"
proof -
  let ?Q = "\<lambda>(ik, v). ik = q"
  have "mset (index_getAll f s q) = image_mset snd (filter_mset ?Q (mset (index_sorted f s)))"
    using assms by (simp add: index_getAll_def)
  also have "\<dots> = mset (map snd (filter ?Q (index_entries f s)))"
    by (simp add: mset_index_sorted)
  finally show ?thesis
    by (simp only: index_entries_under [OF assms])
qed

lemma saveToIDB_review:
  "serviceWorker w \<Longrightarrow> valid_key (review_id d) \<Longrightarrow>
   saveToIDB (Review d) IDB_REVIEWS_OBJECT w
     = w\<lparr>database := (database w)\<lparr>reviewsObject :=
           store_insert (review_id d) d (store_delete (review_id d) (reviewsObject (database w)))\<rparr>\<rparr>"
  by (simp add: saveToIDB_def openIDBConnection_def store_put_def IDB_REVIEWS_OBJECT_def)

lemma saveToIDB_offline:
  "serviceWorker w \<Longrightarrow> valid_key (updatedAt d) \<Longrightarrow>
   saveToIDB (Review d) IDB_REVIEWS_OBJECT_OFFLINE w
     = w\<lparr>database := (database w)\<lparr>reviewsOfflineObject :=
           store_insert (updatedAt d) d (store_delete (updatedAt d) (reviewsOfflineObject (database w)))\<rparr>\<rparr>"
  by (simp add: saveToIDB_def openIDBConnection_def store_put_def IDB_REVIEWS_OBJECT_def
        IDB_REVIEWS_OBJECT_OFFLINE_def)

lemma save_each_review:
  "serviceWorker w \<Longrightarrow> \<forall>d \<in> set ds. valid_key (review_id d) \<Longrightarrow>
   foldl (\<lambda>w' d. saveToIDB (Review d) IDB_REVIEWS_OBJECT w') w ds
     = w\<lparr>database := (database w)\<lparr>reviewsObject :=
           foldl (\<lambda>s d. store_insert (review_id d) d (store_delete (review_id d) s))
             (reviewsObject (database w)) ds\<rparr>\<rparr>"
proof (induction ds arbitrary: w)
  case Nil
  then show ?case by simp
next
  case (Cons d ds)
  let ?w = "saveToIDB (Review d) IDB_REVIEWS_OBJECT w"
  have w: "?w = w\<lparr>database := (database w)\<lparr>reviewsObject :=
           store_insert (review_id d) d (store_delete (review_id d) (reviewsObject (database w)))\<rparr>\<rparr>"
    using Cons.prems by (simp add: saveToIDB_review)
  have "serviceWorker ?w"
    using Cons.prems(1) by (simp add: saveToIDB_serviceWorker)
  from Cons.IH [OF this] Cons.prems(2) show ?case
    by (simp add: w)
qed

lemma store_delete_keeps:
  "\<forall>(k', v) \<in> set s. P v \<longrightarrow> k' \<noteq> k \<Longrightarrow>
   filter P (map snd (store_delete k s)) = filter P (map snd s)"
  by (induction s) (auto simp: store_delete_def)

lemma put_reviews_under:
  "\<forall>d \<in> set ds. P d \<Longrightarrow> distinct (map key ds) \<Longrightarrow>
   \<forall>(k, v) \<in> set s. P v \<longrightarrow> k \<notin> key ` set ds \<Longrightarrow>
   mset (filter P (map snd (foldl (\<lambda>s d. store_insert (key d) d (store_delete (key d) s)) s ds)))
     = mset (filter P (map snd s)) + mset ds"
proof (induction ds arbitrary: s)
  case Nil
  then show ?case by simp
next
  case (Cons d ds)
  let ?s' = "store_insert (key d) d (store_delete (key d) s)"
  have keep: "filter P (map snd (store_delete (key d) s)) = filter P (map snd s)"
    using Cons.prems(3) by (intro store_delete_keeps) auto
  have here: "mset (filter P (map snd ?s')) = add_mset d (mset (filter P (map snd s)))"
  proof -
    have "mset (filter P (map snd ?s')) = filter_mset P (image_mset snd (mset ?s'))"
      by simp
    also have "\<dots> = add_mset d (filter_mset P (image_mset snd (mset (store_delete (key d) s))))"
      using Cons.prems(1) by (simp add: mset_store_insert)
    also have "filter_mset P (image_mset snd (mset (store_delete (key d) s)))
                 = mset (filter P (map snd (store_delete (key d) s)))"
      by simp
    finally show ?thesis by (simp only: keep)
  qed
  have inv: "\<forall>(k, v) \<in> set ?s'. P v \<longrightarrow> k \<notin> key ` set ds"
    using Cons.prems(2,3) by (auto simp: set_store_insert store_delete_def)
  let ?put = "\<lambda>s d. store_insert (key d) d (store_delete (key d) s)"
  from Cons.prems have rest: "mset (filter P (map snd (foldl ?put ?s' ds)))
     = mset (filter P (map snd ?s')) + mset ds"
    by (intro Cons.IH inv) auto
  have "mset (filter P (map snd (foldl ?put s (d # ds))))
          = mset (filter P (map snd (foldl ?put ?s' ds)))"
    by simp
  also have "\<dots> = add_mset d (mset (filter P (map snd s))) + mset ds"
    by (simp only: rest here)
  also have "\<dots> = mset (filter P (map snd s)) + mset (d # ds)"
    by simp
  finally show ?case .
qed

lemma fetchReviews_success:
  assumes "fetchReviews ident record_cb w = (w1, [(None, Some rs)])"
  shows "serviceWorker w \<and>
         (index_getAll restaurant_id (reviewsObject (database w)) ident \<noteq> [] \<and> w1 = w
            \<and> rs = index_getAll restaurant_id (reviewsObject (database w)) ident
          \<or> index_getAll restaurant_id (reviewsObject (database w)) ident = []
            \<and> parsed (reviews_endpoint w ident)
            \<and> w1 = foldl (\<lambda>w' d. saveToIDB (Review d) IDB_REVIEWS_OBJECT w')
                      (w\<lparr>requests := requests w @ [GetReviews ident]\<rparr>) rs)"
  using assms
  by (auto simp: fetchReviews_def fetchCachedReviews_def openIDBConnection_def
        fetchReviewsFromAPI_def on_fulfilled_def on_rejected_def
        record_cb_def Let_def
      split: if_splits response.splits)

lemma second_fetchReviews:
  assumes first: "fetchReviews ident record_cb w = (w1, [(None, Some rs)])"
    and ne: "rs \<noteq> []"
    and q: "valid_key ident"
    and parent: "\<forall>d \<in> set rs. restaurant_id d = ident"
    and valid: "\<forall>d \<in> set rs. valid_key (review_id d)"
    and dist: "distinct (map review_id rs)"
  shows "\<exists>rs2. fetchReviews ident record_cb w1 = (w1, [(None, Some rs2)]) \<and> mset rs2 = mset rs"
proof -
  let ?P = "\<lambda>v. restaurant_id v = ident"
  from fetchReviews_success [OF first] have sw: "serviceWorker w" by simp
  from fetchReviews_success [OF first] consider
      (hit) "index_getAll restaurant_id (reviewsObject (database w)) ident \<noteq> []" "w1 = w"
            "rs = index_getAll restaurant_id (reviewsObject (database w)) ident"
    | (miss) "index_getAll restaurant_id (reviewsObject (database w)) ident = []"
            "w1 = foldl (\<lambda>w' d. saveToIDB (Review d) IDB_REVIEWS_OBJECT w')
                      (w\<lparr>requests := requests w @ [GetReviews ident]\<rparr>) rs"
    by blast
  then show ?thesis
  proof cases
    case hit
    with fetchReviews_hit [OF sw hit(1)] show ?thesis by simp
  next
    case miss
    let ?s0 = "reviewsObject (database w)"
    let ?s1 = "foldl (\<lambda>s d. store_insert (review_id d) d (store_delete (review_id d) s)) ?s0 rs"
    have w1: "w1 = w\<lparr>requests := requests w @ [GetReviews ident],
                     database := (database w)\<lparr>reviewsObject := ?s1\<rparr>\<rparr>"
      unfolding miss(2) using sw valid by (subst save_each_review) simp_all
    have sw1: "serviceWorker w1" and store: "reviewsObject (database w1) = ?s1"
      using sw by (simp_all add: w1)
    from mset_index_getAll [OF q, of restaurant_id ?s0] miss(1)
    have none: "filter ?P (map snd ?s0) = []"
      by simp
    then have inv: "\<forall>(k, v) \<in> set ?s0. ?P v \<longrightarrow> k \<notin> review_id ` set rs"
      by (auto simp: filter_empty_conv)
    have "mset (index_getAll restaurant_id ?s1 ident) = mset (filter ?P (map snd ?s1))"
      by (rule mset_index_getAll [OF q])
    also have "\<dots> = mset (filter ?P (map snd ?s0)) + mset rs"
      using parent dist inv by (rule put_reviews_under)
    finally have m: "mset (index_getAll restaurant_id ?s1 ident) = mset rs"
      by (simp add: none)
    with ne have "index_getAll restaurant_id ?s1 ident \<noteq> []" by auto
    with fetchReviews_hit [OF sw1, of ident] m show ?thesis
      by (simp add: store)
  qed
qed

lemma saveToIDB_requests: "requests (saveToIDB data st w) = requests w"
  by (simp add: saveToIDB_def openIDBConnection_def
      split: option.splits save_data.splits sum.splits)

lemma example_fetch_reviews:
  "fetchReviews (JNum 3) record_cb example_world
     = (fst (fetchReviews (JNum 3) record_cb example_world), [(None, Some [example_created])])"
proof -
  have "snd (fetchReviews (JNum 3) record_cb example_world) = [(None, Some [example_created])]"
    by (simp add: fetchReviews_def fetchCachedReviews_def openIDBConnection_def
          example_world_def empty_idb_def index_getAll_def index_sorted_def index_entries_def
          fetchReviewsFromAPI_def on_fulfilled_def record_cb_def)
  then show ?thesis by (simp add: prod_eq_iff)
qed

text \<open>
  C1 says that \<^verbatim>\<open>fetchRestaurants\<close> and \<^verbatim>\<open>fetchReviews\<close> answer from the store, without
  a request, whenever the partition of the collection is not empty. For \<^verbatim>\<open>fetchReviews\<close>
  the code looks at the index, not at the partition: with a review of restaurant 3 in the
  store, reviews of restaurant 1 are still asked of the server.
\<close>

theorem cache_hit_per_parent_counterexample:
  "serviceWorker cached_review_world
   \<and> reviewsObject (database cached_review_world) \<noteq> []
   \<and> requests cached_review_world = []
   \<and> snd (fetchReviews (JNum 1) record_cb cached_review_world) = [(None, Some [])]
   \<and> requests (fst (fetchReviews (JNum 1) record_cb cached_review_world)) = [GetReviews (JNum 1)]"
  by (simp add: cached_review_world_def example_world_def empty_idb_def example_created_def
        example_review_def fetchReviews_def fetchCachedReviews_def openIDBConnection_def
        index_getAll_def index_sorted_def index_entries_def fetchReviewsFromAPI_def
        on_fulfilled_def record_cb_def)

text \<open>
  C1, amended. Where the database opens and the store holds restaurants, \<^verbatim>\<open>fetchRestaurants\<close>
  calls back with the stored records and leaves the world, and so the log of requests, as it
  was; \<^verbatim>\<open>fetchReviews\<close> does the same where the index holds reviews under the id asked for.
  After a \<^verbatim>\<open>fetchRestaurants\<close> that succeeded with a non-empty list of records whose ids are
  valid keys (numbers or strings) without duplicates, a second \<^verbatim>\<open>fetchRestaurants\<close> calls
  back with the same records, each as often as before and possibly in another order (with the
  same list when the ids ascend), and sends no request. After a \<^verbatim>\<open>fetchReviews\<close> for an id
  that is a valid key, which succeeded with a non-empty list of reviews whose ids are valid keys
  without duplicates and whose \<^verbatim>\<open>restaurant_id\<close> is the id asked for, a second
  \<^verbatim>\<open>fetchReviews\<close> for that id calls back with the same reviews, each as often as before and
  possibly in another order, and sends no request.
\<close>

theorem cache_hit_read_through:
  "(serviceWorker w \<and> restaurantObject (database w) \<noteq> [] \<longrightarrow>
      fetchRestaurants record_cb w
        = (w, [(None, Some (store_getAll (restaurantObject (database w))))])
      \<and> requests (fst (fetchRestaurants record_cb w)) = requests w)
   \<and> (serviceWorker w \<and> index_getAll restaurant_id (reviewsObject (database w)) ident \<noteq> [] \<longrightarrow>
      fetchReviews ident record_cb w
        = (w, [(None, Some (index_getAll restaurant_id (reviewsObject (database w)) ident))])
      \<and> requests (fst (fetchReviews ident record_cb w)) = requests w)
   \<and> (fetchRestaurants record_cb w = (w1, [(None, Some rs)]) \<and> rs \<noteq> []
        \<and> (\<forall>r \<in> set rs. valid_key (id' r)) \<and> distinct (map id' rs) \<longrightarrow>
      (\<exists>rs2. fetchRestaurants record_cb w1 = (w1, [(None, Some rs2)]) \<and> mset rs2 = mset rs
          \<and> (sorted_wrt key_less (map id' rs) \<longrightarrow> rs2 = rs))
      \<and> requests (fst (fetchRestaurants record_cb w1)) = requests w1)
   \<and> (fetchReviews ident record_cb w = (w2, [(None, Some ds)]) \<and> ds \<noteq> [] \<and> valid_key ident
        \<and> (\<forall>d \<in> set ds. restaurant_id d = ident) \<and> (\<forall>d \<in> set ds. valid_key (review_id d))
        \<and> distinct (map review_id ds) \<longrightarrow>
      (\<exists>ds2. fetchReviews ident record_cb w2 = (w2, [(None, Some ds2)]) \<and> mset ds2 = mset ds)
      \<and> requests (fst (fetchReviews ident record_cb w2)) = requests w2)"
proof (intro conjI impI)
  assume "serviceWorker w \<and> restaurantObject (database w) \<noteq> []"
  then have a: "fetchRestaurants record_cb w
        = (w, [(None, Some (store_getAll (restaurantObject (database w))))])"
    by (simp add: fetchRestaurants_hit)
  then show "fetchRestaurants record_cb w
        = (w, [(None, Some (store_getAll (restaurantObject (database w))))])" .
  from a show "requests (fst (fetchRestaurants record_cb w)) = requests w"
    by simp
next
  assume "serviceWorker w \<and> index_getAll restaurant_id (reviewsObject (database w)) ident \<noteq> []"
  then have a: "fetchReviews ident record_cb w
        = (w, [(None, Some (index_getAll restaurant_id (reviewsObject (database w)) ident))])"
    by (simp add: fetchReviews_hit)
  then show "fetchReviews ident record_cb w
        = (w, [(None, Some (index_getAll restaurant_id (reviewsObject (database w)) ident))])" .
  from a show "requests (fst (fetchReviews ident record_cb w)) = requests w"
    by simp
next
  assume h: "fetchRestaurants record_cb w = (w1, [(None, Some rs)]) \<and> rs \<noteq> []
        \<and> (\<forall>r \<in> set rs. valid_key (id' r)) \<and> distinct (map id' rs)"
  then have s: "\<exists>rs2. fetchRestaurants record_cb w1 = (w1, [(None, Some rs2)]) \<and> mset rs2 = mset rs
          \<and> (sorted_wrt key_less (map id' rs) \<longrightarrow> rs2 = rs)"
    using second_fetchRestaurants [of w w1 rs] by blast
  then show "\<exists>rs2. fetchRestaurants record_cb w1 = (w1, [(None, Some rs2)]) \<and> mset rs2 = mset rs
          \<and> (sorted_wrt key_less (map id' rs) \<longrightarrow> rs2 = rs)" .
  from s obtain rs2 where "fetchRestaurants record_cb w1 = (w1, [(None, Some rs2)])"
    by blast
  then show "requests (fst (fetchRestaurants record_cb w1)) = requests w1"
    by simp
next
  assume h: "fetchReviews ident record_cb w = (w2, [(None, Some ds)]) \<and> ds \<noteq> [] \<and> valid_key ident
        \<and> (\<forall>d \<in> set ds. restaurant_id d = ident) \<and> (\<forall>d \<in> set ds. valid_key (review_id d))
        \<and> distinct (map review_id ds)"
  then have s: "\<exists>ds2. fetchReviews ident record_cb w2 = (w2, [(None, Some ds2)])
                  \<and> mset ds2 = mset ds"
    using second_fetchReviews [of ident w w2 ds] by blast
  then show "\<exists>ds2. fetchReviews ident record_cb w2 = (w2, [(None, Some ds2)]) \<and> mset ds2 = mset ds" .
  from s obtain ds2 where "fetchReviews ident record_cb w2 = (w2, [(None, Some ds2)])"
    by blast
  then show "requests (fst (fetchReviews ident record_cb w2)) = requests w2"
    by simp
qed

theorem cache_hit_read_through_witness:
  "snd (fetchRestaurants record_cb (fst (fetchRestaurants record_cb example_world)))
     = [(None, Some example_restaurants)]
   \<and> requests (fst (fetchRestaurants record_cb (fst (fetchRestaurants record_cb example_world))))
     = [GetRestaurants]
   \<and> snd (fetchReviews (JNum 3) record_cb (fst (fetchReviews (JNum 3) record_cb example_world)))
     = [(None, Some [example_created])]
   \<and> requests (fst (fetchReviews (JNum 3) record_cb (fst (fetchReviews (JNum 3) record_cb example_world))))
     = [GetReviews (JNum 3)]"
proof -
  let ?w1 = "fst (fetchRestaurants record_cb example_world)"
  let ?w2 = "fst (fetchReviews (JNum 3) record_cb example_world)"
  have ids: "example_restaurants \<noteq> [] \<and> (\<forall>r \<in> set example_restaurants. valid_key (id' r))
             \<and> distinct (map id' example_restaurants)
             \<and> sorted_wrt key_less (map id' example_restaurants)"
    by (simp add: example_restaurants_def example_restaurant_def)
  have revs: "[example_created] \<noteq> [] \<and> valid_key (JNum 3)
             \<and> (\<forall>d \<in> set [example_created]. restaurant_id d = JNum 3)
             \<and> (\<forall>d \<in> set [example_created]. valid_key (review_id d))
             \<and> distinct (map review_id [example_created])"
    by (simp add: example_created_def example_review_def)
  have r1: "requests ?w1 = [GetRestaurants]"
    by (simp add: fetchRestaurants_def fetchCachedRestaurants_def openIDBConnection_def
          example_world_def empty_idb_def store_getAll_def fetchRestaurantsFromAPI_def
          saveToIDB_requests)
  have r2: "requests ?w2 = [GetReviews (JNum 3)]"
    by (simp add: fetchReviews_def fetchCachedReviews_def openIDBConnection_def
          example_world_def empty_idb_def index_getAll_def index_sorted_def index_entries_def
          fetchReviewsFromAPI_def record_cb_def saveToIDB_requests)
  from cache_hit_read_through
         [where w = example_world and ?w1.0 = ?w1 and rs = example_restaurants
            and ?w2.0 = ?w2 and ds = "[example_created]" and ident = "JNum 3"]
       example_fetch example_fetch_reviews ids revs
  obtain rs2 ds2 where
      a: "fetchRestaurants record_cb ?w1 = (?w1, [(None, Some rs2)])" "rs2 = example_restaurants"
    and b: "fetchReviews (JNum 3) record_cb ?w2 = (?w2, [(None, Some ds2)])"
           "mset ds2 = mset [example_created]"
    by blast
  from b(2) have "ds2 = [example_created]"
    by simp
  with a b r1 r2 show ?thesis by simp
qed

section \<open>Submitting a review where \<^verbatim>\<open>port\<close> is bound\<close>

text \<open>
  On a page whose global object binds \<^verbatim>\<open>port\<close>, the two paths of \<^verbatim>\<open>addReview\<close> run: a
  failed request puts the stamped review into the offline store, keyed by \<^verbatim>\<open>updatedAt\<close>, and
  leaves the reviews store alone; an answered request puts the server's record into the reviews
  store and calls \<^verbatim>\<open>cb(null)\<close>.
\<close>

lemma addReview_buffers_when_port_bound:
  assumes "globals w ''port'' = Some p" and "create_review_endpoint w data = NetworkFailure"
    and "serviceWorker w"
  shows "\<exists>w'. addReview data cb w = Inr (w', [])
           \<and> (JNum (clock w (clock_reads w)),
               data\<lparr>updatedAt := JNum (clock w (clock_reads w)),
                    createdAt := JNum (clock w (Suc (clock_reads w)))\<rparr>)
                \<in> set (reviewsOfflineObject (database w'))
           \<and> reviewsObject (database w') = reviewsObject (database w)
           \<and> requests w' = requests w @ [PostReview data]"
  using assms
  by (simp add: addReview_def resolve_port addReview_rejected_def getTime_def saveToIDB_offline
        set_store_insert)

lemma addReview_saves_when_port_bound:
  assumes "globals w ''port'' = Some p" and "create_review_endpoint w data = Json ok created"
    and "serviceWorker w" and "valid_key (review_id created)"
  shows "\<exists>w'. addReview data record_cb w = Inr (w', [(None, None)])
           \<and> (review_id created, created) \<in> set (reviewsObject (database w'))
           \<and> reviewsOfflineObject (database w') = reviewsOfflineObject (database w)"
  using assms
  by (simp add: addReview_def resolve_port saveToIDB_review set_store_insert record_cb_def)

end
